theory Spec2Isabelle
  imports Complex_Main "HOL-Library.AList"
begin

section \<open>The Python built-ins the two parsers rely on\<close>

text \<open>
  Strings are lists of characters with code points below 256. An exception raised by
  the Python code is a value \<open>Inl e\<close>; a normal return is \<open>Inr v\<close>.
\<close>

datatype py_error = IndexError | ValueError | KeyError

text \<open>\<^verbatim>\<open>xs[i]\<close>: negative indices count from the end, out of range raises IndexError.\<close>

definition py_index :: "'a list \<Rightarrow> int \<Rightarrow> py_error + 'a" where
  "py_index xs i =
     (if 0 \<le> i \<and> i < int (length xs) then Inr (xs ! nat i)
      else if i < 0 \<and> - int (length xs) \<le> i then Inr (xs ! nat (int (length xs) + i))
      else Inl IndexError)"

text \<open>\<^verbatim>\<open>sub in s\<close> on strings: \<open>sub\<close> occurs in \<open>s\<close> as a contiguous substring.\<close>

fun startswith :: "string \<Rightarrow> string \<Rightarrow> bool" where
  "startswith s [] = True"
| "startswith [] (p # ps) = False"
| "startswith (c # cs) (p # ps) = (c = p \<and> startswith cs ps)"

fun py_in :: "string \<Rightarrow> string \<Rightarrow> bool" where
  "py_in sub [] = (sub = [])"
| "py_in sub (c # cs) = (startswith (c # cs) sub \<or> py_in sub cs)"

text \<open>\<^verbatim>\<open>s.split(sep)\<close> for a separator of one character: never the empty list.\<close>

fun py_split :: "char \<Rightarrow> string \<Rightarrow> string list" where
  "py_split sep [] = [[]]"
| "py_split sep (c # cs) =
     (if c = sep then [] # py_split sep cs
      else (case py_split sep cs of
              [] \<Rightarrow> [[c]]
            | w # ws \<Rightarrow> (c # w) # ws))"

text \<open>
  \<^verbatim>\<open>s.splitlines()\<close>: the line boundaries below 256 are LF, VT, FF, CR, FS, GS, RS and
  NEL, with CR LF counting as one; a line break at the very end opens no further line,
  and the empty string has no line at all.
\<close>

definition is_linebreak :: "char \<Rightarrow> bool" where
  "is_linebreak c =
     (c \<in> set [CHR 0x0A, CHR 0x0B, CHR 0x0C, CHR 0x0D, CHR 0x1C, CHR 0x1D, CHR 0x1E, CHR 0x85])"

fun splitlines_from :: "string \<Rightarrow> string \<Rightarrow> string list" where
  "splitlines_from cur [] = (if cur = [] then [] else [cur])"
| "splitlines_from cur (c # cs) =
     (if is_linebreak c then
        (case cs of
           [] \<Rightarrow> [cur]
         | d # ds \<Rightarrow>
             if c = CHR 0x0D \<and> d = CHR 0x0A then cur # splitlines_from [] ds
             else cur # splitlines_from [] (d # ds))
      else splitlines_from (cur @ [c]) cs)"

definition splitlines :: "string \<Rightarrow> string list" where
  "splitlines s = splitlines_from [] s"

text \<open>
  \<^verbatim>\<open>s.strip()\<close> as \<^verbatim>\<open>int\<close> and \<^verbatim>\<open>float\<close> apply it: the white space below 256 is
  TAB, LF, VT, FF, CR, FS, GS, RS, US, space, NEL and NBSP.
\<close>

definition is_space :: "char \<Rightarrow> bool" where
  "is_space c =
     (c \<in> set [CHR 0x09, CHR 0x0A, CHR 0x0B, CHR 0x0C, CHR 0x0D, CHR 0x1C, CHR 0x1D,
               CHR 0x1E, CHR 0x1F, CHR 0x20, CHR 0x85, CHR 0xA0])"

definition strip :: "string \<Rightarrow> string" where
  "strip s = rev (dropWhile is_space (rev (dropWhile is_space s)))"

definition is_digit :: "char \<Rightarrow> bool" where
  "is_digit c = (48 \<le> (of_char c :: int) \<and> (of_char c :: int) \<le> 57)"

definition digit_val :: "char \<Rightarrow> int" where
  "digit_val c = (of_char c :: int) - 48"

text \<open>
  A digit part of a numeric literal: one or more digits, with single underscores allowed
  between two digits. The result is the list of the digits' values.
\<close>

fun digitpart :: "string \<Rightarrow> int list option" where
  "digitpart [] = None"
| "digitpart [c] = (if is_digit c then Some [digit_val c] else None)"
| "digitpart (c # d # cs) =
     (if is_digit c then
        (if d = CHR ''_'' then map_option (Cons (digit_val c)) (digitpart cs)
         else map_option (Cons (digit_val c)) (digitpart (d # cs)))
      else None)"

definition digits_value :: "int list \<Rightarrow> int" where
  "digits_value ds = foldl (\<lambda>a d. 10 * a + d) 0 ds"

text \<open>A leading sign of a numeric literal: whether it is negative, and the rest.\<close>

fun split_sign :: "string \<Rightarrow> bool \<times> string" where
  "split_sign [] = (False, [])"
| "split_sign (c # cs) =
     (if c = CHR ''-'' then (True, cs)
      else if c = CHR ''+'' then (False, cs)
      else (False, c # cs))"

text \<open>\<^verbatim>\<open>int(s)\<close> in base ten; \<open>None\<close> stands for the ValueError.\<close>

definition py_int :: "string \<Rightarrow> int option" where
  "py_int s =
     (let (neg, u) = split_sign (strip s)
      in map_option (\<lambda>ds. if neg then - digits_value ds else digits_value ds)
           (digitpart u))"

text \<open>
  A Python float is modelled by the number its literal denotes: the exact decimal value
  as a rational, an infinity with its sign, or not-a-number. Rounding to the nearest
  binary64 value and overflow to infinity are not modelled.
\<close>

datatype py_float = Finite rat | Infinity bool | NaN

definition lower :: "char \<Rightarrow> char" where
  "lower c =
     (if 65 \<le> (of_char c :: int) \<and> (of_char c :: int) \<le> 90
      then char_of ((of_char c :: int) + 32) else c)"

text \<open>
  The mantissa \<^verbatim>\<open>[digits][.[digits]]\<close> with at least one digit: the digits read as one
  number, and how many of them follow the point.
\<close>

definition mantissa :: "string \<Rightarrow> (int \<times> nat) option" where
  "mantissa m =
     (let ip = takeWhile (\<lambda>c. c \<noteq> CHR ''.'') m;
          rest = dropWhile (\<lambda>c. c \<noteq> CHR ''.'') m
      in if rest = [] then map_option (\<lambda>ds. (digits_value ds, 0)) (digitpart ip)
         else
           (let fp = tl rest
            in if ip = [] \<and> fp = [] then None
               else
                 (case (if ip = [] then Some [] else digitpart ip,
                        if fp = [] then Some [] else digitpart fp) of
                    (Some a, Some b) \<Rightarrow> Some (digits_value (a @ b), length b)
                  | _ \<Rightarrow> None)))"

definition exponent :: "string \<Rightarrow> int option" where
  "exponent x =
     (let (neg, u) = split_sign x
      in map_option (\<lambda>ds. if neg then - digits_value ds else digits_value ds)
           (digitpart u))"

definition scale10 :: "rat \<Rightarrow> int \<Rightarrow> rat" where
  "scale10 r i = (if 0 \<le> i then r * 10 ^ nat i else r / 10 ^ nat (- i))"

definition decimal :: "string \<Rightarrow> rat option" where
  "decimal u =
     (let m = takeWhile (\<lambda>c. lower c \<noteq> CHR ''e'') u;
          e = dropWhile (\<lambda>c. lower c \<noteq> CHR ''e'') u
      in case mantissa m of
           None \<Rightarrow> None
         | Some (n, k) \<Rightarrow>
             (if e = [] then Some (scale10 (of_int n) (- int k))
              else map_option (\<lambda>i. scale10 (of_int n) (i - int k)) (exponent (tl e))))"

text \<open>\<^verbatim>\<open>float(s)\<close>; \<open>None\<close> stands for the ValueError.\<close>

definition py_float :: "string \<Rightarrow> py_float option" where
  "py_float s =
     (let (neg, u) = split_sign (strip s); l = map lower u
      in if l = ''inf'' \<or> l = ''infinity'' then Some (Infinity neg)
         else if l = ''nan'' then Some NaN
         else map_option (\<lambda>r. Finite (if neg then - r else r)) (decimal u))"

text \<open>\<^verbatim>\<open>a > b\<close> on floats: every comparison with not-a-number is false.\<close>

fun py_gt :: "py_float \<Rightarrow> py_float \<Rightarrow> bool" where
  "py_gt (Finite a) (Finite b) = (a > b)"
| "py_gt (Finite a) (Infinity neg) = neg"
| "py_gt (Infinity neg) (Finite b) = (\<not> neg)"
| "py_gt (Infinity n1) (Infinity n2) = (\<not> n1 \<and> n2)"
| "py_gt NaN b = False"
| "py_gt a NaN = False"

section \<open>The constants of the repository\<close>

text \<open>
  The values imported from \<^verbatim>\<open>src.constants\<close> and \<^verbatim>\<open>src.sec_constants\<close> are parameters of
  the model: every function that reads one takes them as its first argument.
\<close>

record constants =
  COMMAND_EXIT_ERROR_MESSAGE :: string
  LOCAL_ROUTER :: string
  LOCAL_ROUTER_ERROR :: string
  MODEM_ERROR :: string
  RESOLVE_HOST_ERROR :: string
  PACKET_LOSS_ERROR :: string
  ROUND_TRIP_TIME_ERROR :: string
  MAX_ACCEPTABLE_PACKET_LOSS :: py_float
  MAX_ACCEPTABLE_AVERAGE_ROUND_TRIP_TIME :: py_float
  LOGGER_STARTING_LOG :: string
  LOGGER_STATUS_CHECK_RUNNING_MESSAGE :: string

section \<open>ping.py: parsing and classifying a ping response\<close>

text \<open>
  The dictionary \<^verbatim>\<open>parsed_ping_dict\<close>. Its keys are the seven \<^verbatim>\<open>RESPONSE_KEY_\<close> constants;
  the first three are always present, and \<open>None\<close> in one of the four metrics means that
  the key is absent. The value under the error key is Python's \<^verbatim>\<open>None\<close> (here \<open>None\<close>) or
  a string.
\<close>

record parsed_ping =
  host :: string
  able_to_resolve_host :: bool
  error :: "string option"
  num_packets_sent :: "int option"
  packet_loss_percent :: "py_float option"
  average_round_trip_time :: "py_float option"
  max_round_trip_time :: "py_float option"

text \<open>The loop over the comma-separated metrics of the summary line.\<close>

fun packet_loss_loop :: "parsed_ping \<Rightarrow> string list \<Rightarrow> py_error + parsed_ping" where
  "packet_loss_loop d [] = Inr d"
| "packet_loss_loop d (metric # metrics) =
     (if py_in ''packet loss'' metric then
        (case py_index (py_split CHR ''%'' metric) 0 of
           Inl e \<Rightarrow> Inl e
         | Inr packet_loss_data \<Rightarrow>
             (case py_float packet_loss_data of
                None \<Rightarrow> Inl ValueError
              | Some v \<Rightarrow> packet_loss_loop (d\<lparr>packet_loss_percent := Some v\<rparr>) metrics))
      else packet_loss_loop d metrics)"

definition parse_ping_summary_and_update_parsed_ping_dict ::
  "parsed_ping \<Rightarrow> string \<Rightarrow> py_error + parsed_ping" where
  "parse_ping_summary_and_update_parsed_ping_dict d ping_summary =
     (let split_ping_summary = py_split CHR '','' ping_summary
      in case py_index split_ping_summary 0 of
           Inl e \<Rightarrow> Inl e
         | Inr packets_transmitted_data \<Rightarrow>
             (case py_index (py_split CHR '' '' packets_transmitted_data) 0 of
                Inl e \<Rightarrow> Inl e
              | Inr w \<Rightarrow>
                  (case py_int w of
                     None \<Rightarrow> Inl ValueError
                   | Some n \<Rightarrow>
                       packet_loss_loop (d\<lparr>num_packets_sent := Some n\<rparr>)
                         split_ping_summary)))"

definition parse_ping_timing_and_update_parsed_ping_dict ::
  "parsed_ping \<Rightarrow> string \<Rightarrow> py_error + parsed_ping" where
  "parse_ping_timing_and_update_parsed_ping_dict d ping_timing =
     (case py_index (py_split CHR ''='' ping_timing) 1 of
        Inl e \<Rightarrow> Inl e
      | Inr rhs \<Rightarrow>
          (let split_ping_timing = py_split CHR ''/'' rhs
           in case py_index split_ping_timing 1 of
                Inl e \<Rightarrow> Inl e
              | Inr a \<Rightarrow>
                  (case py_float a of
                     None \<Rightarrow> Inl ValueError
                   | Some avg \<Rightarrow>
                       (case py_index split_ping_timing 2 of
                          Inl e \<Rightarrow> Inl e
                        | Inr m \<Rightarrow>
                            (case py_float m of
                               None \<Rightarrow> Inl ValueError
                             | Some mx \<Rightarrow>
                                 Inr (d\<lparr>average_round_trip_time := Some avg,
                                        max_round_trip_time := Some mx\<rparr>))))))"

definition check_if_ping_executed_successfully ::
  "constants \<Rightarrow> string list \<Rightarrow> py_error + bool" where
  "check_if_ping_executed_successfully C split_ping_response =
     (case py_index split_ping_response 0 of
        Inl e \<Rightarrow> Inl e
      | Inr first_line \<Rightarrow>
          if py_in (COMMAND_EXIT_ERROR_MESSAGE C) first_line then Inr False else Inr True)"

definition determine_if_able_to_resolve_host :: "string \<Rightarrow> string list \<Rightarrow> bool" where
  "determine_if_able_to_resolve_host url split_ping_response =
     (if length split_ping_response = 1 then False else True)"

definition parse_ping_response :: "constants \<Rightarrow> string \<Rightarrow> string \<Rightarrow> py_error + parsed_ping" where
  "parse_ping_response C url response =
     (let parsed_ping_dict =
            \<lparr>host = url, able_to_resolve_host = False, error = None,
             num_packets_sent = None, packet_loss_percent = None,
             average_round_trip_time = None, max_round_trip_time = None\<rparr>;
          split_ping_response = splitlines response
      in case check_if_ping_executed_successfully C split_ping_response of
           Inl e \<Rightarrow> Inl e
         | Inr ping_executed_successfully \<Rightarrow>
             if \<not> ping_executed_successfully then
               (if url = LOCAL_ROUTER C
                then Inr (parsed_ping_dict\<lparr>error := Some (LOCAL_ROUTER_ERROR C)\<rparr>)
                else Inr (parsed_ping_dict\<lparr>error := Some (MODEM_ERROR C)\<rparr>))
             else if \<not> determine_if_able_to_resolve_host url split_ping_response then
               Inr parsed_ping_dict
             else
               (case py_index split_ping_response (- 2) of
                  Inl e \<Rightarrow> Inl e
                | Inr ping_summary_response \<Rightarrow>
                    (case parse_ping_summary_and_update_parsed_ping_dict
                            (parsed_ping_dict\<lparr>able_to_resolve_host := True\<rparr>)
                            ping_summary_response of
                       Inl e \<Rightarrow> Inl e
                     | Inr d1 \<Rightarrow>
                         (case py_index split_ping_response (- 1) of
                            Inl e \<Rightarrow> Inl e
                          | Inr ping_timing_response \<Rightarrow>
                              parse_ping_timing_and_update_parsed_ping_dict d1
                                ping_timing_response))))"

definition check_if_ping_resolve_host :: "parsed_ping \<Rightarrow> bool" where
  "check_if_ping_resolve_host parsed_host_response = able_to_resolve_host parsed_host_response"

text \<open>Reading a metric whose key is absent raises KeyError.\<close>

definition check_if_ping_packet_loss_acceptable ::
  "constants \<Rightarrow> parsed_ping \<Rightarrow> py_error + bool" where
  "check_if_ping_packet_loss_acceptable C parsed_host_response =
     (case packet_loss_percent parsed_host_response of
        None \<Rightarrow> Inl KeyError
      | Some p \<Rightarrow> if py_gt p (MAX_ACCEPTABLE_PACKET_LOSS C) then Inr False else Inr True)"

definition check_if_ping_round_trip_time_acceptable ::
  "constants \<Rightarrow> parsed_ping \<Rightarrow> py_error + bool" where
  "check_if_ping_round_trip_time_acceptable C parsed_host_response =
     (case average_round_trip_time parsed_host_response of
        None \<Rightarrow> Inl KeyError
      | Some t \<Rightarrow>
          if py_gt t (MAX_ACCEPTABLE_AVERAGE_ROUND_TRIP_TIME C) then Inr False else Inr True)"

definition check_if_ping_was_successful :: "constants \<Rightarrow> parsed_ping \<Rightarrow> py_error + parsed_ping" where
  "check_if_ping_was_successful C parsed_host_response =
     (if \<not> check_if_ping_resolve_host parsed_host_response then
        Inr (parsed_host_response\<lparr>error := Some (RESOLVE_HOST_ERROR C)\<rparr>)
      else
        (case check_if_ping_packet_loss_acceptable C parsed_host_response of
           Inl e \<Rightarrow> Inl e
         | Inr loss_ok \<Rightarrow>
             if \<not> loss_ok then
               Inr (parsed_host_response\<lparr>error := Some (PACKET_LOSS_ERROR C)\<rparr>)
             else
               (case check_if_ping_round_trip_time_acceptable C parsed_host_response of
                  Inl e \<Rightarrow> Inl e
                | Inr rtt_ok \<Rightarrow>
                    if \<not> rtt_ok then
                      Inr (parsed_host_response\<lparr>error := Some (ROUND_TRIP_TIME_ERROR C)\<rparr>)
                    else Inr (parsed_host_response\<lparr>error := Some []\<rparr>))))"

text \<open>
  \<^verbatim>\<open>ping_host_and_return_parsed_response\<close> after its call of \<^verbatim>\<open>ping_host\<close>, whose
  result is the argument \<open>response\<close>. An error value is falsy when it is \<^verbatim>\<open>None\<close> or the
  empty string.
\<close>

definition ping_host_and_return_parsed_response ::
  "constants \<Rightarrow> string \<Rightarrow> string \<Rightarrow> py_error + parsed_ping" where
  "ping_host_and_return_parsed_response C url response =
     (case parse_ping_response C url response of
        Inl e \<Rightarrow> Inl e
      | Inr parsed_ping_dict \<Rightarrow>
          if error parsed_ping_dict = None \<or> error parsed_ping_dict = Some []
          then check_if_ping_was_successful C parsed_ping_dict
          else Inr parsed_ping_dict)"

section \<open>log_parser.py: the summary of a log by day\<close>

text \<open>
  The inner dictionary of one day has the four \<^verbatim>\<open>PARSER_\<close> constants as its keys, taken
  to be four different keys; it is a record of four counters.
\<close>

datatype summary_key =
  PARSER_PACKET_LOSS | PARSER_ROUND_TRIP_TIME | PARSER_MODEM_DOWN | PARSER_ROUTER_DOWN

record day_summary =
  packet_loss :: nat
  round_trip_time :: nat
  modem_down :: nat
  router_down :: nat

definition new_day_summary :: day_summary where
  "new_day_summary = \<lparr>packet_loss = 0, round_trip_time = 0, modem_down = 0, router_down = 0\<rparr>"

text \<open>\<^verbatim>\<open>summary[key] += 1\<close> on the inner dictionary.\<close>

fun increment :: "summary_key \<Rightarrow> day_summary \<Rightarrow> day_summary" where
  "increment PARSER_PACKET_LOSS s = s\<lparr>packet_loss := packet_loss s + 1\<rparr>"
| "increment PARSER_ROUND_TRIP_TIME s = s\<lparr>round_trip_time := round_trip_time s + 1\<rparr>"
| "increment PARSER_MODEM_DOWN s = s\<lparr>modem_down := modem_down s + 1\<rparr>"
| "increment PARSER_ROUTER_DOWN s = s\<lparr>router_down := router_down s + 1\<rparr>"

text \<open>
  A dictionary that keeps the order of insertion is an association list: \<open>AList.update\<close>
  replaces the value of a key that is present, in its place, and appends a new key. The
  dictionary display of \<^verbatim>\<open>log_message_error_to_summary_key_map\<close> stores its four items in
  turn.
\<close>

definition log_message_error_to_summary_key_map :: "constants \<Rightarrow> (string \<times> summary_key) list" where
  "log_message_error_to_summary_key_map C =
     AList.update (LOCAL_ROUTER_ERROR C) PARSER_ROUTER_DOWN
       (AList.update (MODEM_ERROR C) PARSER_MODEM_DOWN
          (AList.update (ROUND_TRIP_TIME_ERROR C) PARSER_ROUND_TRIP_TIME
             (AList.update (PACKET_LOSS_ERROR C) PARSER_PACKET_LOSS [])))"

text \<open>
  The inner loop over the items of that map. The \<^verbatim>\<open>continue\<close> that ends its body goes on
  with the next item. Reading \<^verbatim>\<open>internet_status_summary[log_date]\<close> raises KeyError when
  the date is absent.
\<close>

fun count_errors ::
  "(string \<times> summary_key) list \<Rightarrow> string \<Rightarrow> string \<Rightarrow> (string \<times> day_summary) list
     \<Rightarrow> py_error + (string \<times> day_summary) list" where
  "count_errors [] log_message log_date internet_status_summary = Inr internet_status_summary"
| "count_errors ((err, internet_status_summary_key) # items) log_message log_date
       internet_status_summary =
     (if py_in err log_message then
        (case map_of internet_status_summary log_date of
           None \<Rightarrow> Inl KeyError
         | Some s \<Rightarrow>
             count_errors items log_message log_date
               (AList.update log_date (increment internet_status_summary_key s)
                  internet_status_summary))
      else count_errors items log_message log_date internet_status_summary)"

text \<open>The body of the outer loop for a line that is not skipped.\<close>

definition parse_log_line ::
  "constants \<Rightarrow> (string \<times> day_summary) list \<Rightarrow> string
     \<Rightarrow> py_error + (string \<times> day_summary) list" where
  "parse_log_line C internet_status_summary line =
     (let split_message = py_split CHR ''-'' line
      in case py_index split_message 0 of
           Inl e \<Rightarrow> Inl e
         | Inr log_date_time \<Rightarrow>
             (case py_index (py_split CHR ''@'' log_date_time) 0 of
                Inl e \<Rightarrow> Inl e
              | Inr log_date \<Rightarrow>
                  (let summary1 =
                         (if map_of internet_status_summary log_date = None
                          then AList.update log_date new_day_summary internet_status_summary
                          else internet_status_summary)
                   in case py_index split_message 1 of
                        Inl e \<Rightarrow> Inl e
                      | Inr log_message \<Rightarrow>
                          count_errors (log_message_error_to_summary_key_map C) log_message
                            log_date summary1)))"

fun parse_log_lines ::
  "constants \<Rightarrow> (string \<times> day_summary) list \<Rightarrow> string list
     \<Rightarrow> py_error + (string \<times> day_summary) list" where
  "parse_log_lines C internet_status_summary [] = Inr internet_status_summary"
| "parse_log_lines C internet_status_summary (line # lines) =
     (if py_in (LOGGER_STARTING_LOG C) line
         \<or> py_in (LOGGER_STATUS_CHECK_RUNNING_MESSAGE C) line
      then parse_log_lines C internet_status_summary lines
      else (case parse_log_line C internet_status_summary line of
              Inl e \<Rightarrow> Inl e
            | Inr summary1 \<Rightarrow> parse_log_lines C summary1 lines))"

definition parse_log :: "constants \<Rightarrow> string \<Rightarrow> py_error + (string \<times> day_summary) list" where
  "parse_log C log_file_string = parse_log_lines C [] (splitlines log_file_string)"

text \<open>
  For the statements about the inner loop: the keys that it increments for a message, in
  the order of the items of the map.
\<close>

definition matched_keys :: "constants \<Rightarrow> string \<Rightarrow> summary_key list" where
  "matched_keys C log_message =
     map snd (filter (\<lambda>p. py_in (fst p) log_message) (log_message_error_to_summary_key_map C))"

section \<open>A concrete choice of the constants\<close>

text \<open>
  For evaluating the functions on inputs. The exit message is the text that the docstring
  of \<^verbatim>\<open>check_if_ping_executed_successfully\<close> quotes; the other values are examples.
\<close>

definition example_constants :: constants where
  "example_constants =
     \<lparr>COMMAND_EXIT_ERROR_MESSAGE = ''returned non-zero exit status'',
      LOCAL_ROUTER = ''192.168.1.1'',
      LOCAL_ROUTER_ERROR = ''Unable to connect to local router'',
      MODEM_ERROR = ''Unable to connect to modem'',
      RESOLVE_HOST_ERROR = ''Unable to resolve host'',
      PACKET_LOSS_ERROR = ''Packet loss too high'',
      ROUND_TRIP_TIME_ERROR = ''Round trip time too high'',
      MAX_ACCEPTABLE_PACKET_LOSS = Finite 5,
      MAX_ACCEPTABLE_AVERAGE_ROUND_TRIP_TIME = Finite 100,
      LOGGER_STARTING_LOG = ''Starting internet status logger'',
      LOGGER_STATUS_CHECK_RUNNING_MESSAGE = ''Running internet status check''\<rparr>"

section \<open>Basic facts about the built-ins\<close>

lemma py_index_Cons_0: "py_index (x # xs) 0 = Inr x"
  by (simp add: py_index_def)

lemma py_index_Nil: "py_index [] i = Inl IndexError"
  by (simp add: py_index_def)

lemma py_index_0_hd: "xs \<noteq> [] \<Longrightarrow> py_index xs 0 = Inr (hd xs)"
  by (cases xs) (simp_all add: py_index_Cons_0)

lemma py_index_1: "py_index (x # y # ys) 1 = Inr y"
  by (simp add: py_index_def)

lemma py_index_1_short: "length xs \<le> 1 \<Longrightarrow> py_index xs 1 = Inl IndexError"
  by (simp add: py_index_def)


lemma py_index_2_short: "length xs \<le> 2 \<Longrightarrow> py_index xs 2 = Inl IndexError"
  by (simp add: py_index_def)

lemma py_index_last: "xs \<noteq> [] \<Longrightarrow> py_index xs (- 1) = Inr (last xs)"
proof -
  assume ne: "xs \<noteq> []"
  then have pos: "1 \<le> length xs"
    by (cases xs) simp_all
  then have "nat (int (length xs) - 1) = length xs - 1"
    by simp
  with ne pos show ?thesis
    by (simp add: py_index_def last_conv_nth)
qed

lemma py_index_second_last:
  "2 \<le> length xs \<Longrightarrow> py_index xs (- 2) = Inr (xs ! (length xs - 2))"
proof -
  assume len: "2 \<le> length xs"
  then have "nat (int (length xs) - 2) = length xs - 2"
    by simp
  with len show ?thesis
    by (simp add: py_index_def)
qed

lemma py_index_error: "py_index xs i = Inl e \<Longrightarrow> e = IndexError"
  by (auto simp: py_index_def split: if_splits)

lemma py_split_not_Nil: "py_split sep s \<noteq> []"
  by (induction s) (auto split: list.splits)

lemma splitlines_from_Nil_iff: "splitlines_from cur s = [] \<longleftrightarrow> cur = [] \<and> s = []"
  by (induction s arbitrary: cur) (auto split: list.splits)

lemma splitlines_Nil_iff: "splitlines s = [] \<longleftrightarrow> s = []"
  by (simp add: splitlines_def splitlines_from_Nil_iff)

section \<open>Facts about the ping parser\<close>

lemma check_executed_Cons:
  "check_if_ping_executed_successfully C (l # ls) =
     Inr (\<not> py_in (COMMAND_EXIT_ERROR_MESSAGE C) l)"
  by (simp add: check_if_ping_executed_successfully_def py_index_Cons_0)

lemma check_executed_Nil: "check_if_ping_executed_successfully C [] = Inl IndexError"
  by (simp add: check_if_ping_executed_successfully_def py_index_Nil)

lemma packet_loss_loop_keeps:
  "packet_loss_loop d ms = Inr d' \<Longrightarrow>
     host d' = host d \<and> able_to_resolve_host d' = able_to_resolve_host d \<and>
     error d' = error d \<and> num_packets_sent d' = num_packets_sent d \<and>
     average_round_trip_time d' = average_round_trip_time d \<and>
     max_round_trip_time d' = max_round_trip_time d"
proof (induction ms arbitrary: d)
  case Nil
  then show ?case by simp
next
  case (Cons m ms)
  show ?case
  proof (cases "py_in ''packet loss'' m")
    case False
    with Cons show ?thesis by simp
  next
    case True
    with Cons.prems obtain v where
      "packet_loss_loop (d\<lparr>packet_loss_percent := Some v\<rparr>) ms = Inr d'"
      by (auto split: sum.splits option.splits)
    from Cons.IH [OF this] show ?thesis by simp
  qed
qed

lemma packet_loss_loop_error:
  "packet_loss_loop d ms = Inl e \<Longrightarrow> e = ValueError"
proof (induction ms arbitrary: d)
  case Nil
  then show ?case by simp
next
  case (Cons m ms)
  then show ?case
    by (auto simp: py_index_0_hd py_split_not_Nil split: if_splits option.splits)
qed

lemma summary_keeps:
  "parse_ping_summary_and_update_parsed_ping_dict d s = Inr d' \<Longrightarrow>
     host d' = host d \<and> able_to_resolve_host d' = able_to_resolve_host d \<and>
     error d' = error d \<and>
     average_round_trip_time d' = average_round_trip_time d \<and>
     max_round_trip_time d' = max_round_trip_time d"
  by (auto simp: parse_ping_summary_and_update_parsed_ping_dict_def Let_def
      split: sum.splits option.splits dest!: packet_loss_loop_keeps)

lemma timing_keeps:
  "parse_ping_timing_and_update_parsed_ping_dict d s = Inr d' \<Longrightarrow>
     host d' = host d \<and> able_to_resolve_host d' = able_to_resolve_host d \<and>
     error d' = error d \<and> num_packets_sent d' = num_packets_sent d \<and>
     packet_loss_percent d' = packet_loss_percent d"
  by (auto simp: parse_ping_timing_and_update_parsed_ping_dict_def Let_def
      split: sum.splits option.splits)

text \<open>A response of two or more lines whose first line has no exit message.\<close>

lemma parse_ping_response_multi:
  assumes "splitlines response = lines" and "2 \<le> length lines"
    and "\<not> py_in (COMMAND_EXIT_ERROR_MESSAGE C) (hd lines)"
  shows "parse_ping_response C url response =
     (case parse_ping_summary_and_update_parsed_ping_dict
             \<lparr>host = url, able_to_resolve_host = True, error = None,
              num_packets_sent = None, packet_loss_percent = None,
              average_round_trip_time = None, max_round_trip_time = None\<rparr>
             (lines ! (length lines - 2)) of
        Inl e \<Rightarrow> Inl e
      | Inr d1 \<Rightarrow> parse_ping_timing_and_update_parsed_ping_dict d1 (last lines))"
proof -
  from assms(2) obtain l ls where lines: "lines = l # ls"
    by (cases lines) auto
  from assms(2) have ne: "lines \<noteq> []" and len1: "length lines \<noteq> 1"
    by auto
  from assms(3) lines have "check_if_ping_executed_successfully C lines = Inr True"
    by (simp add: check_executed_Cons)
  with assms(1) len1 show ?thesis
    by (simp add: parse_ping_response_def determine_if_able_to_resolve_host_def
        py_index_second_last [OF assms(2)] py_index_last [OF ne] split: sum.splits)
qed

text \<open>The three ways in which the parser returns a dictionary.\<close>

lemma parse_ping_response_cases:
  assumes "parse_ping_response C url response = Inr r"
  shows "(\<exists>l ls. splitlines response = l # ls \<and> py_in (COMMAND_EXIT_ERROR_MESSAGE C) l \<and>
            r = \<lparr>host = url, able_to_resolve_host = False,
                 error = Some (if url = LOCAL_ROUTER C then LOCAL_ROUTER_ERROR C
                               else MODEM_ERROR C),
                 num_packets_sent = None, packet_loss_percent = None,
                 average_round_trip_time = None, max_round_trip_time = None\<rparr>)
       \<or> (\<exists>l. splitlines response = [l] \<and> \<not> py_in (COMMAND_EXIT_ERROR_MESSAGE C) l \<and>
            r = \<lparr>host = url, able_to_resolve_host = False, error = None,
                 num_packets_sent = None, packet_loss_percent = None,
                 average_round_trip_time = None, max_round_trip_time = None\<rparr>)
       \<or> (2 \<le> length (splitlines response) \<and> able_to_resolve_host r \<and> error r = None)"
proof (cases "splitlines response")
  case Nil
  with assms show ?thesis
    by (simp add: parse_ping_response_def check_executed_Nil)
next
  case (Cons l ls)
  show ?thesis
  proof (cases "py_in (COMMAND_EXIT_ERROR_MESSAGE C) l")
    case True
    with assms Cons show ?thesis
      by (auto simp: parse_ping_response_def check_executed_Cons)
  next
    case nomark: False
    show ?thesis
    proof (cases ls)
      case Nil
      with assms Cons nomark show ?thesis
        by (simp add: parse_ping_response_def check_executed_Cons
            determine_if_able_to_resolve_host_def)
    next
      case (Cons l2 ls2)
      with \<open>splitlines response = l # ls\<close> nomark
      have "2 \<le> length (l # ls)" and "\<not> py_in (COMMAND_EXIT_ERROR_MESSAGE C) (hd (l # ls))"
        by simp_all
      from parse_ping_response_multi [OF \<open>splitlines response = l # ls\<close> this] assms
      obtain s t d1 where
        d1: "parse_ping_summary_and_update_parsed_ping_dict
               \<lparr>host = url, able_to_resolve_host = True, error = None,
                num_packets_sent = None, packet_loss_percent = None,
                average_round_trip_time = None, max_round_trip_time = None\<rparr> s = Inr d1"
        and r: "parse_ping_timing_and_update_parsed_ping_dict d1 t = Inr r"
        by (auto split: sum.splits)
      from summary_keeps [OF d1] timing_keeps [OF r]
      have "able_to_resolve_host r \<and> error r = None" by simp
      with Cons \<open>splitlines response = l # ls\<close> show ?thesis by simp
    qed
  qed
qed

section \<open>The classifier decides resolution first\<close>

text \<open>
  Claim C2. A dictionary whose \<open>able_to_resolve_host\<close> is false is classified as
  \<open>RESOLVE_HOST_ERROR\<close> whatever its metrics are, in particular when its packet loss
  is above the threshold: the resolution check comes first, and the first condition that
  matches decides. The packet loss is looked at only for a resolved host, and the round
  trip time only when the packet loss is acceptable.
\<close>

theorem classifier_resolution_first:
  "(\<not> able_to_resolve_host r \<longrightarrow>
      check_if_ping_was_successful C r = Inr (r\<lparr>error := Some (RESOLVE_HOST_ERROR C)\<rparr>))
   \<and> (\<not> able_to_resolve_host r \<and> packet_loss_percent r = Some p
        \<and> py_gt p (MAX_ACCEPTABLE_PACKET_LOSS C)
        \<and> RESOLVE_HOST_ERROR C \<noteq> PACKET_LOSS_ERROR C \<longrightarrow>
      check_if_ping_was_successful C r \<noteq> Inr (r\<lparr>error := Some (PACKET_LOSS_ERROR C)\<rparr>))
   \<and> (able_to_resolve_host r \<and> packet_loss_percent r = Some p
        \<and> py_gt p (MAX_ACCEPTABLE_PACKET_LOSS C) \<longrightarrow>
      check_if_ping_was_successful C r = Inr (r\<lparr>error := Some (PACKET_LOSS_ERROR C)\<rparr>))
   \<and> (able_to_resolve_host r \<and> packet_loss_percent r = Some p
        \<and> \<not> py_gt p (MAX_ACCEPTABLE_PACKET_LOSS C)
        \<and> average_round_trip_time r = Some t
        \<and> py_gt t (MAX_ACCEPTABLE_AVERAGE_ROUND_TRIP_TIME C) \<longrightarrow>
      check_if_ping_was_successful C r = Inr (r\<lparr>error := Some (ROUND_TRIP_TIME_ERROR C)\<rparr>))
   \<and> (able_to_resolve_host r \<and> packet_loss_percent r = Some p
        \<and> \<not> py_gt p (MAX_ACCEPTABLE_PACKET_LOSS C)
        \<and> average_round_trip_time r = Some t
        \<and> \<not> py_gt t (MAX_ACCEPTABLE_AVERAGE_ROUND_TRIP_TIME C) \<longrightarrow>
      check_if_ping_was_successful C r = Inr (r\<lparr>error := Some []\<rparr>))"
proof -
  have "error (r\<lparr>error := Some (RESOLVE_HOST_ERROR C)\<rparr>)
          \<noteq> error (r\<lparr>error := Some (PACKET_LOSS_ERROR C)\<rparr>)"
    if "RESOLVE_HOST_ERROR C \<noteq> PACKET_LOSS_ERROR C"
    using that by simp
  then have differ: "r\<lparr>error := Some (RESOLVE_HOST_ERROR C)\<rparr>
          \<noteq> r\<lparr>error := Some (PACKET_LOSS_ERROR C)\<rparr>"
    if "RESOLVE_HOST_ERROR C \<noteq> PACKET_LOSS_ERROR C"
    using that by metis
  show ?thesis
    using differ
    by (simp add: check_if_ping_was_successful_def check_if_ping_resolve_host_def
        check_if_ping_packet_loss_acceptable_def check_if_ping_round_trip_time_acceptable_def)
qed

theorem classifier_resolution_first_witness:
  "\<not> able_to_resolve_host
       \<lparr>host = ''www.google.com'', able_to_resolve_host = False, error = None,
        num_packets_sent = Some 10, packet_loss_percent = Some (Finite 50),
        average_round_trip_time = Some (Finite 20), max_round_trip_time = Some (Finite 30)\<rparr>
   \<and> py_gt (Finite 50) (MAX_ACCEPTABLE_PACKET_LOSS example_constants)
   \<and> RESOLVE_HOST_ERROR example_constants \<noteq> PACKET_LOSS_ERROR example_constants
   \<and> check_if_ping_was_successful example_constants
       \<lparr>host = ''www.google.com'', able_to_resolve_host = False, error = None,
        num_packets_sent = Some 10, packet_loss_percent = Some (Finite 50),
        average_round_trip_time = Some (Finite 20), max_round_trip_time = Some (Finite 30)\<rparr>
     = Inr \<lparr>host = ''www.google.com'', able_to_resolve_host = False,
            error = Some ''Unable to resolve host'',
            num_packets_sent = Some 10, packet_loss_percent = Some (Finite 50),
            average_round_trip_time = Some (Finite 20), max_round_trip_time = Some (Finite 30)\<rparr>
   \<and> check_if_ping_was_successful example_constants
       \<lparr>host = ''www.google.com'', able_to_resolve_host = True, error = None,
        num_packets_sent = Some 10, packet_loss_percent = Some (Finite 50),
        average_round_trip_time = Some (Finite 20), max_round_trip_time = Some (Finite 30)\<rparr>
     = Inr \<lparr>host = ''www.google.com'', able_to_resolve_host = True,
            error = Some ''Packet loss too high'',
            num_packets_sent = Some 10, packet_loss_percent = Some (Finite 50),
            average_round_trip_time = Some (Finite 20), max_round_trip_time = Some (Finite 30)\<rparr>"
  using classifier_resolution_first
    [of "\<lparr>host = ''www.google.com'', able_to_resolve_host = False, error = None,
         num_packets_sent = Some 10, packet_loss_percent = Some (Finite 50),
         average_round_trip_time = Some (Finite 20), max_round_trip_time = Some (Finite 30)\<rparr>"
        example_constants "Finite 50" "Finite 20"]
    classifier_resolution_first
    [of "\<lparr>host = ''www.google.com'', able_to_resolve_host = True, error = None,
         num_packets_sent = Some 10, packet_loss_percent = Some (Finite 50),
         average_round_trip_time = Some (Finite 20), max_round_trip_time = Some (Finite 30)\<rparr>"
        example_constants "Finite 50" "Finite 20"]
  by (simp add: example_constants_def)

section \<open>A ping that did not execute\<close>

text \<open>
  Claim C3. When the first line of the response contains the exit message, the parser
  returns a dictionary with the host, \<open>able_to_resolve_host\<close> still false, no metric,
  and the error \<open>LOCAL_ROUTER_ERROR\<close> when the url is the local router and
  \<open>MODEM_ERROR\<close> for every other url: the result is a function of the url alone.
\<close>

theorem parse_execution_failure:
  assumes "splitlines response = first_line # more_lines"
    and "py_in (COMMAND_EXIT_ERROR_MESSAGE C) first_line"
  shows "parse_ping_response C url response =
     Inr \<lparr>host = url, able_to_resolve_host = False,
          error = Some (if url = LOCAL_ROUTER C then LOCAL_ROUTER_ERROR C else MODEM_ERROR C),
          num_packets_sent = None, packet_loss_percent = None,
          average_round_trip_time = None, max_round_trip_time = None\<rparr>"
  using assms by (simp add: parse_ping_response_def check_executed_Cons)

theorem parse_execution_failure_witness:
  "splitlines ''Command ping -c 10 -q 192.168.1.1 returned non-zero exit status 2.''
     = [''Command ping -c 10 -q 192.168.1.1 returned non-zero exit status 2.'']
   \<and> py_in (COMMAND_EXIT_ERROR_MESSAGE example_constants)
        ''Command ping -c 10 -q 192.168.1.1 returned non-zero exit status 2.''
   \<and> parse_ping_response example_constants ''192.168.1.1''
        ''Command ping -c 10 -q 192.168.1.1 returned non-zero exit status 2.''
      = Inr \<lparr>host = ''192.168.1.1'', able_to_resolve_host = False,
             error = Some ''Unable to connect to local router'',
             num_packets_sent = None, packet_loss_percent = None,
             average_round_trip_time = None, max_round_trip_time = None\<rparr>
   \<and> parse_ping_response example_constants ''www.google.com''
        ''Command ping -c 10 -q 192.168.1.1 returned non-zero exit status 2.''
      = Inr \<lparr>host = ''www.google.com'', able_to_resolve_host = False,
             error = Some ''Unable to connect to modem'',
             num_packets_sent = None, packet_loss_percent = None,
             average_round_trip_time = None, max_round_trip_time = None\<rparr>"
proof -
  have lines: "splitlines ''Command ping -c 10 -q 192.168.1.1 returned non-zero exit status 2.''
     = [''Command ping -c 10 -q 192.168.1.1 returned non-zero exit status 2.'']"
    by code_simp
  have marker: "py_in (COMMAND_EXIT_ERROR_MESSAGE example_constants)
        ''Command ping -c 10 -q 192.168.1.1 returned non-zero exit status 2.''"
    by code_simp
  show ?thesis
    using lines marker
      parse_execution_failure [OF lines marker, of "''192.168.1.1''"]
      parse_execution_failure [OF lines marker, of "''www.google.com''"]
    by (simp add: example_constants_def)
qed

section \<open>What the parser returns for a host that did not resolve\<close>

lemma classifier_keeps:
  "check_if_ping_was_successful C r = Inr r' \<Longrightarrow>
     host r' = host r \<and> able_to_resolve_host r' = able_to_resolve_host r \<and>
     num_packets_sent r' = num_packets_sent r \<and>
     packet_loss_percent r' = packet_loss_percent r \<and>
     average_round_trip_time r' = average_round_trip_time r \<and>
     max_round_trip_time r' = max_round_trip_time r"
  by (auto simp: check_if_ping_was_successful_def split: if_splits sum.splits)

lemma classifier_unresolved:
  "\<not> able_to_resolve_host r \<Longrightarrow>
     check_if_ping_was_successful C r = Inr (r\<lparr>error := Some (RESOLVE_HOST_ERROR C)\<rparr>)"
  by (simp add: check_if_ping_was_successful_def check_if_ping_resolve_host_def)

text \<open>
  Claim C4 says that a dictionary of the parser with \<open>able_to_resolve_host\<close> false has
  no metric and has its error already set by the parser to one of
  \<open>LOCAL_ROUTER_ERROR\<close>, \<open>MODEM_ERROR\<close>, \<open>RESOLVE_HOST_ERROR\<close>. The parser leaves the
  error unset for a response of one line without the exit message.
\<close>

theorem parser_leaves_error_unset:
  "parse_ping_response example_constants ''example.invalid''
     ''ping: cannot resolve example.invalid: Unknown host''
   = Inr \<lparr>host = ''example.invalid'', able_to_resolve_host = False, error = None,
          num_packets_sent = None, packet_loss_percent = None,
          average_round_trip_time = None, max_round_trip_time = None\<rparr>"
  by code_simp

text \<open>
  Claim C4, amended. A dictionary of the parser with \<open>able_to_resolve_host\<close> false has
  no metric, and its error is \<open>LOCAL_ROUTER_ERROR\<close> or \<open>MODEM_ERROR\<close>, set by the
  parser, or is still unset, in which case the classifier sets it to
  \<open>RESOLVE_HOST_ERROR\<close>. So every such dictionary that
  \<^verbatim>\<open>ping_host_and_return_parsed_response\<close> returns has no metric and one of the three
  errors.
\<close>

theorem unresolved_host_invariant:
  "(parse_ping_response C url response = Inr r \<and> \<not> able_to_resolve_host r \<longrightarrow>
      num_packets_sent r = None \<and> packet_loss_percent r = None \<and>
      average_round_trip_time r = None \<and> max_round_trip_time r = None \<and>
      (error r = Some (LOCAL_ROUTER_ERROR C) \<or> error r = Some (MODEM_ERROR C) \<or>
       (error r = None \<and>
        check_if_ping_was_successful C r = Inr (r\<lparr>error := Some (RESOLVE_HOST_ERROR C)\<rparr>))))
   \<and> (ping_host_and_return_parsed_response C url response = Inr r' \<and>
        \<not> able_to_resolve_host r' \<longrightarrow>
      num_packets_sent r' = None \<and> packet_loss_percent r' = None \<and>
      average_round_trip_time r' = None \<and> max_round_trip_time r' = None \<and>
      (error r' = Some (LOCAL_ROUTER_ERROR C) \<or> error r' = Some (MODEM_ERROR C) \<or>
       error r' = Some (RESOLVE_HOST_ERROR C)))"
proof -
  have parser: "num_packets_sent r = None \<and> packet_loss_percent r = None \<and>
      average_round_trip_time r = None \<and> max_round_trip_time r = None \<and>
      (error r = Some (LOCAL_ROUTER_ERROR C) \<or> error r = Some (MODEM_ERROR C) \<or>
       (error r = None \<and>
        check_if_ping_was_successful C r = Inr (r\<lparr>error := Some (RESOLVE_HOST_ERROR C)\<rparr>)))"
    if p: "parse_ping_response C url response = Inr r" and u: "\<not> able_to_resolve_host r"
    for r
    using parse_ping_response_cases [OF p] u classifier_unresolved [OF u, of C]
    by auto
  have whole: "num_packets_sent r' = None \<and> packet_loss_percent r' = None \<and>
      average_round_trip_time r' = None \<and> max_round_trip_time r' = None \<and>
      (error r' = Some (LOCAL_ROUTER_ERROR C) \<or> error r' = Some (MODEM_ERROR C) \<or>
       error r' = Some (RESOLVE_HOST_ERROR C))"
    if w: "ping_host_and_return_parsed_response C url response = Inr r'"
      and u': "\<not> able_to_resolve_host r'"
  proof -
    from w obtain r0 where p0: "parse_ping_response C url response = Inr r0"
      and step: "(if error r0 = None \<or> error r0 = Some []
                  then check_if_ping_was_successful C r0 else Inr r0) = Inr r'"
      by (auto simp: ping_host_and_return_parsed_response_def split: sum.splits)
    show ?thesis
    proof (cases "error r0 = None \<or> error r0 = Some []")
      case True
      with step have c: "check_if_ping_was_successful C r0 = Inr r'" by simp
      from classifier_keeps [OF c] u' have u0: "\<not> able_to_resolve_host r0" by simp
      from classifier_unresolved [OF u0, of C] c
      have "r' = r0\<lparr>error := Some (RESOLVE_HOST_ERROR C)\<rparr>" by simp
      with parser [OF p0 u0] show ?thesis by simp
    next
      case False
      with step have "r' = r0" by simp
      with parser [OF p0] u' False show ?thesis by auto
    qed
  qed
  from parser whole show ?thesis by blast
qed

theorem unresolved_host_invariant_witness:
  "parse_ping_response example_constants ''example.invalid''
     ''ping: cannot resolve example.invalid: Unknown host''
   = Inr \<lparr>host = ''example.invalid'', able_to_resolve_host = False, error = None,
          num_packets_sent = None, packet_loss_percent = None,
          average_round_trip_time = None, max_round_trip_time = None\<rparr>
   \<and> check_if_ping_was_successful example_constants
       \<lparr>host = ''example.invalid'', able_to_resolve_host = False, error = None,
        num_packets_sent = None, packet_loss_percent = None,
        average_round_trip_time = None, max_round_trip_time = None\<rparr>
     = Inr \<lparr>host = ''example.invalid'', able_to_resolve_host = False,
            error = Some ''Unable to resolve host'',
            num_packets_sent = None, packet_loss_percent = None,
            average_round_trip_time = None, max_round_trip_time = None\<rparr>
   \<and> ping_host_and_return_parsed_response example_constants ''example.invalid''
       ''ping: cannot resolve example.invalid: Unknown host''
     = Inr \<lparr>host = ''example.invalid'', able_to_resolve_host = False,
            error = Some ''Unable to resolve host'',
            num_packets_sent = None, packet_loss_percent = None,
            average_round_trip_time = None, max_round_trip_time = None\<rparr>"
proof -
  have p: "parse_ping_response example_constants ''example.invalid''
     ''ping: cannot resolve example.invalid: Unknown host''
   = Inr \<lparr>host = ''example.invalid'', able_to_resolve_host = False, error = None,
          num_packets_sent = None, packet_loss_percent = None,
          average_round_trip_time = None, max_round_trip_time = None\<rparr>"
    by code_simp
  have w: "ping_host_and_return_parsed_response example_constants ''example.invalid''
       ''ping: cannot resolve example.invalid: Unknown host''
     = Inr \<lparr>host = ''example.invalid'', able_to_resolve_host = False,
            error = Some (RESOLVE_HOST_ERROR example_constants),
            num_packets_sent = None, packet_loss_percent = None,
            average_round_trip_time = None, max_round_trip_time = None\<rparr>"
    by (simp add: ping_host_and_return_parsed_response_def p
        check_if_ping_was_successful_def check_if_ping_resolve_host_def)
  show ?thesis
    using p w
      unresolved_host_invariant [of example_constants "''example.invalid''"
        "''ping: cannot resolve example.invalid: Unknown host''"
        "\<lparr>host = ''example.invalid'', able_to_resolve_host = False, error = None,
          num_packets_sent = None, packet_loss_percent = None,
          average_round_trip_time = None, max_round_trip_time = None\<rparr>"
        "\<lparr>host = ''example.invalid'', able_to_resolve_host = False,
            error = Some (RESOLVE_HOST_ERROR example_constants),
            num_packets_sent = None, packet_loss_percent = None,
            average_round_trip_time = None, max_round_trip_time = None\<rparr>"]
    by (simp add: example_constants_def)
qed

section \<open>Where the parser is defined\<close>

text \<open>
  Claim C5 says that the parser returns a dictionary for every input, the empty string
  included. The empty string has no line, and reading the first line raises IndexError.
\<close>

theorem parse_empty_response_raises:
  "parse_ping_response example_constants ''www.google.com'' [] = Inl IndexError"
  by code_simp

text \<open>
  Claim C5, amended. On the empty string the parser raises IndexError. Every other
  string has a first line, so that the check of the first line for the exit message
  and the count of the lines are defined, and the parser returns a dictionary whenever
  the first line contains the exit message or the response is a single line.
\<close>

theorem parse_defined_on_nonempty:
  "parse_ping_response C url [] = Inl IndexError
   \<and> (response \<noteq> [] \<longrightarrow>
        1 \<le> length (splitlines response) \<and>
        check_if_ping_executed_successfully C (splitlines response)
          = Inr (\<not> py_in (COMMAND_EXIT_ERROR_MESSAGE C) (hd (splitlines response))))
   \<and> (response \<noteq> [] \<and>
        (py_in (COMMAND_EXIT_ERROR_MESSAGE C) (hd (splitlines response)) \<or>
         length (splitlines response) = 1) \<longrightarrow>
        (\<exists>r. parse_ping_response C url response = Inr r))"
proof -
  have empty: "parse_ping_response C url [] = Inl IndexError"
    by (simp add: parse_ping_response_def splitlines_def check_executed_Nil)
  have first: "1 \<le> length (splitlines response) \<and>
        check_if_ping_executed_successfully C (splitlines response)
          = Inr (\<not> py_in (COMMAND_EXIT_ERROR_MESSAGE C) (hd (splitlines response)))"
    if "response \<noteq> []"
  proof -
    from that obtain l ls where "splitlines response = l # ls"
      by (cases "splitlines response") (simp_all add: splitlines_Nil_iff)
    then show ?thesis by (simp add: check_executed_Cons)
  qed
  have returns: "\<exists>r. parse_ping_response C url response = Inr r"
    if "response \<noteq> []"
      and "py_in (COMMAND_EXIT_ERROR_MESSAGE C) (hd (splitlines response)) \<or>
         length (splitlines response) = 1"
  proof -
    from that(1) obtain l ls where lines: "splitlines response = l # ls"
      by (cases "splitlines response") (simp_all add: splitlines_Nil_iff)
    with that(2) show ?thesis
      by (auto simp: parse_ping_response_def check_executed_Cons Let_def
          determine_if_able_to_resolve_host_def)
  qed
  from empty first returns show ?thesis by blast
qed

theorem parse_defined_on_nonempty_witness:
  "''ping: cannot resolve example.invalid: Unknown host'' \<noteq> []
   \<and> length (splitlines ''ping: cannot resolve example.invalid: Unknown host'') = 1
   \<and> check_if_ping_executed_successfully example_constants
        (splitlines ''ping: cannot resolve example.invalid: Unknown host'') = Inr True
   \<and> (\<exists>r. parse_ping_response example_constants ''example.invalid''
          ''ping: cannot resolve example.invalid: Unknown host'' = Inr r)"
proof -
  have ne: "''ping: cannot resolve example.invalid: Unknown host'' \<noteq> []"
    by simp
  have one: "length (splitlines ''ping: cannot resolve example.invalid: Unknown host'') = 1"
    by code_simp
  have nomark: "\<not> py_in (COMMAND_EXIT_ERROR_MESSAGE example_constants)
      (hd (splitlines ''ping: cannot resolve example.invalid: Unknown host''))"
    by code_simp
  show ?thesis
    using ne one nomark
      parse_defined_on_nonempty [of example_constants "''example.invalid''"
        "''ping: cannot resolve example.invalid: Unknown host''"]
    by simp
qed

section \<open>A well-formed response of several lines\<close>

lemma summary_unfold:
  "parse_ping_summary_and_update_parsed_ping_dict d s =
     (case py_int (hd (py_split CHR '' '' (hd (py_split CHR '','' s)))) of
        None \<Rightarrow> Inl ValueError
      | Some n \<Rightarrow> packet_loss_loop (d\<lparr>num_packets_sent := Some n\<rparr>) (py_split CHR '','' s))"
  by (simp add: parse_ping_summary_and_update_parsed_ping_dict_def Let_def
      py_index_0_hd py_split_not_Nil)

lemma packet_loss_loop_step:
  "packet_loss_loop d (m # ms) =
     (if py_in ''packet loss'' m then
        (case py_float (hd (py_split CHR ''%'' m)) of
           None \<Rightarrow> Inl ValueError
         | Some v \<Rightarrow> packet_loss_loop (d\<lparr>packet_loss_percent := Some v\<rparr>) ms)
      else packet_loss_loop d ms)"
  by (simp add: py_index_0_hd py_split_not_Nil)












section \<open>Which strings are numbers\<close>

lemma digitpart_chars:
  "digitpart s = Some ds \<Longrightarrow> c \<in> set s \<Longrightarrow> is_digit c \<or> c = CHR ''_''"
  by (induction s arbitrary: ds rule: digitpart.induct) (auto split: if_splits)

lemma split_sign_chars:
  "c \<in> set s \<Longrightarrow> c \<in> set (snd (split_sign s)) \<or> c = CHR ''-'' \<or> c = CHR ''+''"
  by (cases s) (auto split: if_splits)

lemma in_dropWhile: "x \<in> set xs \<Longrightarrow> \<not> P x \<Longrightarrow> x \<in> set (dropWhile P xs)"
  by (induction xs) auto

lemma strip_keeps: "c \<in> set s \<Longrightarrow> \<not> is_space c \<Longrightarrow> c \<in> set (strip s)"
  by (simp add: strip_def in_dropWhile)

lemma take_or_drop:
  "c \<in> set xs \<Longrightarrow> c \<in> set (takeWhile P xs) \<or> c \<in> set (dropWhile P xs)"
  by (metis Un_iff set_append takeWhile_dropWhile_id)

lemma mantissa_chars:
  assumes "mantissa m = Some x" and "c \<in> set m"
  shows "is_digit c \<or> c = CHR ''_'' \<or> c = CHR ''.''"
proof -
  let ?ip = "takeWhile (\<lambda>c. c \<noteq> CHR ''.'') m"
  let ?rest = "dropWhile (\<lambda>c. c \<noteq> CHR ''.'') m"
  show ?thesis
  proof (cases "?rest = []")
    case True
    then have "?ip = m" by (metis append_Nil2 takeWhile_dropWhile_id)
    with assms True obtain ds where "digitpart m = Some ds"
      by (auto simp: mantissa_def Let_def)
    from digitpart_chars [OF this assms(2)] show ?thesis by blast
  next
    case False
    then have "hd ?rest = CHR ''.''"
      using hd_dropWhile [of "\<lambda>c. c \<noteq> CHR ''.''" m] by simp
    with False have rest: "?rest = CHR ''.'' # tl ?rest"
      by (cases ?rest) simp_all
    from assms(1) False have ip: "?ip = [] \<or> (\<exists>a. digitpart ?ip = Some a)"
      and fp: "tl ?rest = [] \<or> (\<exists>b. digitpart (tl ?rest) = Some b)"
      by (auto simp: mantissa_def Let_def split: if_splits option.splits)
    from take_or_drop [OF assms(2), of "\<lambda>c. c \<noteq> CHR ''.''"] rest
    have "c \<in> set ?ip \<or> c = CHR ''.'' \<or> c \<in> set (tl ?rest)"
      by (metis set_ConsD)
    with ip fp show ?thesis
      by (auto dest: digitpart_chars)
  qed
qed

lemma exponent_chars:
  assumes "exponent x = Some i" and "c \<in> set x"
  shows "is_digit c \<or> c = CHR ''_'' \<or> c = CHR ''-'' \<or> c = CHR ''+''"
proof -
  from assms(1) obtain ds where "digitpart (snd (split_sign x)) = Some ds"
    by (auto simp: exponent_def split: prod.splits)
  with split_sign_chars [OF assms(2)] show ?thesis
    by (auto dest: digitpart_chars)
qed

lemma decimal_chars:
  assumes "decimal u = Some r" and "c \<in> set u"
  shows "is_digit c \<or> c = CHR ''_'' \<or> c = CHR ''.'' \<or> c = CHR ''-'' \<or> c = CHR ''+''
         \<or> lower c = CHR ''e''"
proof -
  let ?m = "takeWhile (\<lambda>c. lower c \<noteq> CHR ''e'') u"
  let ?e = "dropWhile (\<lambda>c. lower c \<noteq> CHR ''e'') u"
  from assms(1) obtain x where m: "mantissa ?m = Some x"
    by (auto simp: decimal_def Let_def split: option.splits)
  from assms(1) have e: "?e = [] \<or> (\<exists>i. exponent (tl ?e) = Some i)"
    by (auto simp: decimal_def Let_def split: option.splits if_splits)
  from take_or_drop [OF assms(2), of "\<lambda>c. lower c \<noteq> CHR ''e''"]
  consider "c \<in> set ?m" | "c \<in> set ?e" by blast
  then show ?thesis
  proof cases
    case 1
    from mantissa_chars [OF m 1] show ?thesis by blast
  next
    case 2
    then have ne: "?e \<noteq> []" by (metis empty_iff empty_set)
    then have "lower (hd ?e) = CHR ''e''"
      using hd_dropWhile [of "\<lambda>c. lower c \<noteq> CHR ''e''" u] by simp
    moreover from 2 ne have "c = hd ?e \<or> c \<in> set (tl ?e)"
      by (cases ?e) auto
    moreover from e ne obtain i where "exponent (tl ?e) = Some i" by blast
    ultimately show ?thesis
      by (auto dest: exponent_chars)
  qed
qed

text \<open>A string with the letter p in it is no float.\<close>

lemma py_float_letter_p:
  assumes "CHR ''p'' \<in> set s"
  shows "py_float s = None"
proof -
  obtain neg u where su: "split_sign (strip s) = (neg, u)"
    by (cases "split_sign (strip s)")
  have nsp: "\<not> is_space (CHR ''p'')" by (simp add: is_space_def)
  have low: "lower (CHR ''p'') = CHR ''p''" by (simp add: lower_def)
  have nd: "\<not> is_digit (CHR ''p'')" by (simp add: is_digit_def)
  from split_sign_chars [OF strip_keeps [OF assms nsp]] su
  have pu: "CHR ''p'' \<in> set u" by simp
  then have "CHR ''p'' \<in> set (map lower u)"
    using low by (metis image_eqI set_map)
  then have names: "map lower u \<noteq> ''inf''" "map lower u \<noteq> ''infinity''"
    "map lower u \<noteq> ''nan''"
    by auto
  have "decimal u = None"
  proof (cases "decimal u")
    case None
    then show ?thesis .
  next
    case (Some r)
    from decimal_chars [OF Some pu] nd low show ?thesis by simp
  qed
  with su names show ?thesis
    by (simp add: py_float_def)
qed

lemma startswith_set: "startswith s p \<Longrightarrow> set p \<subseteq> set s"
  by (induction s p rule: startswith.induct) auto

lemma py_in_set: "py_in sub s \<Longrightarrow> set sub \<subseteq> set s"
proof (induction s)
  case Nil
  then show ?case by simp
next
  case (Cons c cs)
  then show ?case
    using startswith_set [of "c # cs" sub] by auto
qed

lemma py_split_no_sep: "sep \<notin> set s \<Longrightarrow> py_split sep s = [s]"
  by (induction s) auto

lemma packet_loss_without_percent:
  assumes "py_in ''packet loss'' seg" and "CHR ''%'' \<notin> set seg"
  shows "py_float (hd (py_split CHR ''%'' seg)) = None"
proof -
  from py_in_set [OF assms(1)] have "CHR ''p'' \<in> set seg" by auto
  with assms(2) show ?thesis
    by (simp add: py_split_no_sep py_float_letter_p)
qed

section \<open>A response of several lines that is not well formed\<close>

lemma py_index_nonneg:
  "0 \<le> i \<Longrightarrow> py_index xs i = Inr x \<longleftrightarrow> nat i < length xs \<and> x = xs ! nat i"
  by (auto simp: py_index_def)

lemma timing_result:
  assumes "parse_ping_timing_and_update_parsed_ping_dict d t = Inr d'"
  shows "2 \<le> length (py_split CHR ''='' t)
     \<and> 3 \<le> length (py_split CHR ''/'' (py_split CHR ''='' t ! 1))
     \<and> py_float (py_split CHR ''/'' (py_split CHR ''='' t ! 1) ! 1) \<noteq> None
     \<and> py_float (py_split CHR ''/'' (py_split CHR ''='' t ! 1) ! 2) \<noteq> None
     \<and> d' = d\<lparr>average_round_trip_time :=
                  py_float (py_split CHR ''/'' (py_split CHR ''='' t ! 1) ! 1),
               max_round_trip_time :=
                  py_float (py_split CHR ''/'' (py_split CHR ''='' t ! 1) ! 2)\<rparr>"
proof -
  from assms obtain rhs a m av mx where
    rhs: "py_index (py_split CHR ''='' t) 1 = Inr rhs"
    and a: "py_index (py_split CHR ''/'' rhs) 1 = Inr a"
    and av: "py_float a = Some av"
    and m: "py_index (py_split CHR ''/'' rhs) 2 = Inr m"
    and mx: "py_float m = Some mx"
    and d': "d' = d\<lparr>average_round_trip_time := Some av, max_round_trip_time := Some mx\<rparr>"
    by (auto simp: parse_ping_timing_and_update_parsed_ping_dict_def Let_def
        split: sum.splits option.splits)
  from rhs have r1: "2 \<le> length (py_split CHR ''='' t)" "rhs = py_split CHR ''='' t ! 1"
    by (simp_all add: py_index_nonneg)
  from m have r2: "3 \<le> length (py_split CHR ''/'' rhs)" "m = py_split CHR ''/'' rhs ! 2"
    by (simp_all add: py_index_nonneg)
  from a have r3: "a = py_split CHR ''/'' rhs ! 1"
    by (simp add: py_index_nonneg)
  from r1 r2 r3 av mx d' show ?thesis by simp
qed

lemma timing_error:
  "parse_ping_timing_and_update_parsed_ping_dict d t = Inl e \<Longrightarrow>
     e = IndexError \<or> e = ValueError"
  by (auto simp: parse_ping_timing_and_update_parsed_ping_dict_def Let_def
      split: sum.splits option.splits dest: py_index_error)

lemma timing_without_equals:
  "CHR ''='' \<notin> set t \<Longrightarrow>
     parse_ping_timing_and_update_parsed_ping_dict d t = Inl IndexError"
  by (simp add: parse_ping_timing_and_update_parsed_ping_dict_def py_split_no_sep
      py_index_1_short)

lemma summary_error:
  "parse_ping_summary_and_update_parsed_ping_dict d s = Inl e \<Longrightarrow> e = ValueError"
  by (auto simp: summary_unfold split: option.splits dest: packet_loss_loop_error)

lemma packet_loss_loop_result:
  "packet_loss_loop d ms = Inr d' \<Longrightarrow>
     (d' = d \<and> filter (py_in ''packet loss'') ms = [])
     \<or> (\<exists>seg\<in>set ms. py_in ''packet loss'' seg
           \<and> py_float (hd (py_split CHR ''%'' seg)) \<noteq> None
           \<and> d' = d\<lparr>packet_loss_percent := py_float (hd (py_split CHR ''%'' seg))\<rparr>)"
proof (induction ms arbitrary: d)
  case Nil
  then show ?case by simp
next
  case (Cons m ms)
  show ?case
  proof (cases "py_in ''packet loss'' m")
    case False
    with Cons.prems have "packet_loss_loop d ms = Inr d'"
      by (simp add: packet_loss_loop_step del: packet_loss_loop.simps)
    from Cons.IH [OF this] False show ?thesis by auto
  next
    case True
    with Cons.prems obtain v where v: "py_float (hd (py_split CHR ''%'' m)) = Some v"
      and rest: "packet_loss_loop (d\<lparr>packet_loss_percent := Some v\<rparr>) ms = Inr d'"
      by (auto simp: packet_loss_loop_step simp del: packet_loss_loop.simps
          split: option.splits)
    from Cons.IH [OF rest] True v show ?thesis by auto
  qed
qed

lemma packet_loss_loop_fails:
  "seg \<in> set ms \<Longrightarrow> py_in ''packet loss'' seg \<Longrightarrow>
     py_float (hd (py_split CHR ''%'' seg)) = None \<Longrightarrow>
     packet_loss_loop d ms = Inl ValueError"
proof (induction ms arbitrary: d)
  case Nil
  then show ?case by simp
next
  case (Cons m ms)
  show ?case
  proof (cases "seg = m")
    case True
    with Cons.prems show ?thesis
      by (simp add: packet_loss_loop_step del: packet_loss_loop.simps)
  next
    case False
    with Cons.prems have "seg \<in> set ms" by simp
    from Cons.IH [OF this Cons.prems(2,3)] show ?thesis
      by (simp add: packet_loss_loop_step del: packet_loss_loop.simps split: option.splits)
  qed
qed

lemma summary_result:
  assumes "parse_ping_summary_and_update_parsed_ping_dict d s = Inr d'"
  shows "py_int (hd (py_split CHR '' '' (hd (py_split CHR '','' s)))) \<noteq> None
     \<and> ((d' = d\<lparr>num_packets_sent :=
                   py_int (hd (py_split CHR '' '' (hd (py_split CHR '','' s))))\<rparr>
          \<and> filter (py_in ''packet loss'') (py_split CHR '','' s) = [])
        \<or> (\<exists>seg\<in>set (py_split CHR '','' s). py_in ''packet loss'' seg
             \<and> py_float (hd (py_split CHR ''%'' seg)) \<noteq> None
             \<and> d' = d\<lparr>num_packets_sent :=
                        py_int (hd (py_split CHR '' '' (hd (py_split CHR '','' s)))),
                      packet_loss_percent := py_float (hd (py_split CHR ''%'' seg))\<rparr>))"
proof -
  from assms obtain n where
    n: "py_int (hd (py_split CHR '' '' (hd (py_split CHR '','' s)))) = Some n"
    and loop: "packet_loss_loop (d\<lparr>num_packets_sent := Some n\<rparr>) (py_split CHR '','' s)
               = Inr d'"
    by (auto simp: summary_unfold split: option.splits)
  from packet_loss_loop_result [OF loop] n show ?thesis by auto
qed

text \<open>
  Claim C6 says that for a response of several lines whose summary or timing line is
  absent or cannot be parsed, the parser returns an error result and lets no exception
  escape. A timing line without \<open>=\<close> raises IndexError, a segment with
  \<open>packet loss\<close> and no \<open>%\<close> raises ValueError, and a summary line without any
  \<open>packet loss\<close> segment gives a dictionary with no error and no packet loss.
\<close>

theorem malformed_response_no_error_result:
  "parse_ping_response example_constants ''www.google.com''
     (''PING www.google.com (142.250.72.14): 56 data bytes'' @ CHR 0x0A #
      ''10 packets transmitted, 10 packets received, 0.0% packet loss'' @ CHR 0x0A #
      ''round-trip min/avg/max/stddev 3.084/8.829/11.708/2.290 ms'') = Inl IndexError
   \<and> parse_ping_response example_constants ''www.google.com''
     (''PING www.google.com (142.250.72.14): 56 data bytes'' @ CHR 0x0A #
      ''10 packets transmitted, 10 packets received, 0.0 packet loss'' @ CHR 0x0A #
      ''round-trip min/avg/max/stddev = 3.084/8.829/11.708/2.290 ms'') = Inl ValueError
   \<and> parse_ping_response example_constants ''www.google.com''
     (''PING www.google.com (142.250.72.14): 56 data bytes'' @ CHR 0x0A #
      ''10 packets transmitted, 10 packets received'' @ CHR 0x0A #
      ''round-trip min/avg/max/stddev = 3.084/8.829/11.708/2.290 ms'') =
     Inr \<lparr>host = ''www.google.com'', able_to_resolve_host = True, error = None,
          num_packets_sent = Some 10, packet_loss_percent = None,
          average_round_trip_time = Some (Finite (8829 / 1000)),
          max_round_trip_time = Some (Finite (11708 / 1000))\<rparr>"
  by code_simp

text \<open>
  Claim C6, amended. For a response of two or more lines whose first line has no exit
  message, the parser builds no error result: it raises IndexError or ValueError, which
  reaches the caller, or it returns a dictionary without an error. It raises when the
  timing line has no \<open>=\<close>, when the first token of the summary line is no integer,
  and when a segment of the summary line contains \<open>packet loss\<close> and no \<open>%\<close>.
  A dictionary that it returns holds the integer and the floats read from the text and
  never a default value; its packet loss is absent exactly when no segment of the
  summary line contains \<open>packet loss\<close>.
\<close>

theorem malformed_response_raises:
  assumes "splitlines response = lines" and "2 \<le> length lines"
    and "\<not> py_in (COMMAND_EXIT_ERROR_MESSAGE C) (hd lines)"
    and "summary = lines ! (length lines - 2)" and "timing = last lines"
    and "segs = py_split CHR '','' summary"
    and "parts = py_split CHR ''/'' (py_split CHR ''='' timing ! 1)"
  shows "(\<forall>e. parse_ping_response C url response = Inl e \<longrightarrow>
            e = IndexError \<or> e = ValueError)
     \<and> (CHR ''='' \<notin> set timing \<longrightarrow> (\<exists>e. parse_ping_response C url response = Inl e))
     \<and> (py_int (hd (py_split CHR '' '' (hd segs))) = None \<longrightarrow>
            parse_ping_response C url response = Inl ValueError)
     \<and> ((\<exists>seg\<in>set segs. py_in ''packet loss'' seg \<and> CHR ''%'' \<notin> set seg) \<longrightarrow>
            parse_ping_response C url response = Inl ValueError)
     \<and> (\<forall>r. parse_ping_response C url response = Inr r \<longrightarrow>
            host r = url \<and> able_to_resolve_host r \<and> error r = None
            \<and> num_packets_sent r = py_int (hd (py_split CHR '' '' (hd segs)))
            \<and> num_packets_sent r \<noteq> None
            \<and> 2 \<le> length (py_split CHR ''='' timing) \<and> 3 \<le> length parts
            \<and> average_round_trip_time r = py_float (parts ! 1)
            \<and> average_round_trip_time r \<noteq> None
            \<and> max_round_trip_time r = py_float (parts ! 2)
            \<and> max_round_trip_time r \<noteq> None
            \<and> ((packet_loss_percent r = None \<and> filter (py_in ''packet loss'') segs = [])
                \<or> (\<exists>seg\<in>set segs. py_in ''packet loss'' seg
                     \<and> packet_loss_percent r = py_float (hd (py_split CHR ''%'' seg))
                     \<and> packet_loss_percent r \<noteq> None)))"
proof -
  let ?d = "\<lparr>host = url, able_to_resolve_host = True, error = None,
             num_packets_sent = None, packet_loss_percent = None,
             average_round_trip_time = None, max_round_trip_time = None\<rparr>"
  have unfold: "parse_ping_response C url response =
     (case parse_ping_summary_and_update_parsed_ping_dict ?d summary of
        Inl e \<Rightarrow> Inl e
      | Inr d1 \<Rightarrow> parse_ping_timing_and_update_parsed_ping_dict d1 timing)"
    unfolding assms(4,5) by (rule parse_ping_response_multi [OF assms(1,2,3)])
  have errors: "e = IndexError \<or> e = ValueError"
    if "parse_ping_response C url response = Inl e" for e
    using that unfolding unfold
    by (auto split: sum.splits dest: summary_error timing_error)
  have no_equals: "\<exists>e. parse_ping_response C url response = Inl e"
    if "CHR ''='' \<notin> set timing"
    unfolding unfold by (simp add: timing_without_equals [OF that] split: sum.splits)
  have no_int: "parse_ping_response C url response = Inl ValueError"
    if "py_int (hd (py_split CHR '' '' (hd segs))) = None"
    using that unfolding unfold by (simp add: summary_unfold assms(6))
  have no_percent: "parse_ping_response C url response = Inl ValueError"
    if "\<exists>seg\<in>set segs. py_in ''packet loss'' seg \<and> CHR ''%'' \<notin> set seg"
  proof -
    from that obtain seg where seg: "seg \<in> set (py_split CHR '','' summary)"
      "py_in ''packet loss'' seg" "CHR ''%'' \<notin> set seg"
      using assms(6) by blast
    from packet_loss_loop_fails [OF seg(1,2) packet_loss_without_percent [OF seg(2,3)]]
    show ?thesis
      unfolding unfold by (simp add: summary_unfold split: option.splits)
  qed
  have returned: "host r = url \<and> able_to_resolve_host r \<and> error r = None
            \<and> num_packets_sent r = py_int (hd (py_split CHR '' '' (hd segs)))
            \<and> num_packets_sent r \<noteq> None
            \<and> 2 \<le> length (py_split CHR ''='' timing) \<and> 3 \<le> length parts
            \<and> average_round_trip_time r = py_float (parts ! 1)
            \<and> average_round_trip_time r \<noteq> None
            \<and> max_round_trip_time r = py_float (parts ! 2)
            \<and> max_round_trip_time r \<noteq> None
            \<and> ((packet_loss_percent r = None \<and> filter (py_in ''packet loss'') segs = [])
                \<or> (\<exists>seg\<in>set segs. py_in ''packet loss'' seg
                     \<and> packet_loss_percent r = py_float (hd (py_split CHR ''%'' seg))
                     \<and> packet_loss_percent r \<noteq> None))"
    if "parse_ping_response C url response = Inr r" for r
  proof -
    from that obtain d1 where
      d1: "parse_ping_summary_and_update_parsed_ping_dict ?d summary = Inr d1"
      and r: "parse_ping_timing_and_update_parsed_ping_dict d1 timing = Inr r"
      unfolding unfold by (auto split: sum.splits)
    from summary_result [OF d1] timing_result [OF r] show ?thesis
      unfolding assms(6,7) by auto
  qed
  from errors no_equals no_int no_percent returned show ?thesis
    by blast
qed

theorem malformed_response_raises_witness:
  "splitlines (''PING www.google.com (142.250.72.14): 56 data bytes'' @ CHR 0x0A #
      ''10 packets transmitted, 10 packets received, 0.0% packet loss'' @ CHR 0x0A #
      ''round-trip min/avg/max/stddev 3.084/8.829/11.708/2.290 ms'')
     = [''PING www.google.com (142.250.72.14): 56 data bytes'',
        ''10 packets transmitted, 10 packets received, 0.0% packet loss'',
        ''round-trip min/avg/max/stddev 3.084/8.829/11.708/2.290 ms'']
   \<and> \<not> py_in (COMMAND_EXIT_ERROR_MESSAGE example_constants)
         ''PING www.google.com (142.250.72.14): 56 data bytes''
   \<and> CHR ''='' \<notin> set ''round-trip min/avg/max/stddev 3.084/8.829/11.708/2.290 ms''
   \<and> (\<exists>e. parse_ping_response example_constants ''www.google.com''
          (''PING www.google.com (142.250.72.14): 56 data bytes'' @ CHR 0x0A #
           ''10 packets transmitted, 10 packets received, 0.0% packet loss'' @ CHR 0x0A #
           ''round-trip min/avg/max/stddev 3.084/8.829/11.708/2.290 ms'') = Inl e
          \<and> (e = IndexError \<or> e = ValueError))"
proof -
  let ?h = "''PING www.google.com (142.250.72.14): 56 data bytes''"
  let ?s = "''10 packets transmitted, 10 packets received, 0.0% packet loss''"
  let ?t = "''round-trip min/avg/max/stddev 3.084/8.829/11.708/2.290 ms''"
  have lines: "splitlines (?h @ CHR 0x0A # ?s @ CHR 0x0A # ?t) = [?h, ?s, ?t]"
    by code_simp
  have len: "2 \<le> length [?h, ?s, ?t]" by simp
  have nomark: "\<not> py_in (COMMAND_EXIT_ERROR_MESSAGE example_constants) (hd [?h, ?s, ?t])"
    by code_simp
  have noeq: "CHR ''='' \<notin> set (last [?h, ?s, ?t])"
    by code_simp
  from malformed_response_raises [OF lines len nomark refl refl refl refl,
      of "''www.google.com''"] noeq
  have "\<exists>e. parse_ping_response example_constants ''www.google.com''
          (?h @ CHR 0x0A # ?s @ CHR 0x0A # ?t) = Inl e \<and> (e = IndexError \<or> e = ValueError)"
    by blast
  with lines nomark noeq show ?thesis by simp
qed

section \<open>Facts about the log parser\<close>

lemma py_split_at_first:
  "sep \<notin> set a \<Longrightarrow> py_split sep (a @ sep # b) = a # py_split sep b"
  by (induction a) (auto split: list.splits)

lemma hd_py_split: "hd (py_split sep s) = takeWhile (\<lambda>c. c \<noteq> sep) s"
  by (induction s) (auto simp: py_split_not_Nil split: list.splits)

lemma count_errors_fold:
  "map_of s d = Some v \<Longrightarrow>
     count_errors items msg d s =
       Inr (AList.update d
              (fold increment (map snd (filter (\<lambda>p. py_in (fst p) msg) items)) v) s)"
proof (induction items arbitrary: s v)
  case Nil
  then show ?case by (simp add: AList.update_triv)
next
  case (Cons item items)
  obtain err k where item: "item = (err, k)" by (cases item)
  show ?case
  proof (cases "py_in err msg")
    case True
    have "map_of (AList.update d (increment k v) s) d = Some (increment k v)"
      by (simp add: AList.update_conv')
    from Cons.IH [OF this] True Cons.prems item show ?thesis by simp
  next
    case False
    with Cons item show ?thesis by simp
  qed
qed

text \<open>What one line that has a hyphen does to the summary.\<close>

lemma parse_log_line_result:
  assumes "CHR ''-'' \<notin> set ts"
  shows "parse_log_line C s (ts @ CHR ''-'' # rest) =
     Inr (AList.update (takeWhile (\<lambda>c. c \<noteq> CHR ''@'') ts)
            (fold increment (matched_keys C (takeWhile (\<lambda>c. c \<noteq> CHR ''-'') rest))
               (case map_of s (takeWhile (\<lambda>c. c \<noteq> CHR ''@'') ts) of
                  None \<Rightarrow> new_day_summary
                | Some v \<Rightarrow> v))
            s)"
proof -
  let ?date = "takeWhile (\<lambda>c. c \<noteq> CHR ''@'') ts"
  let ?msg = "takeWhile (\<lambda>c. c \<noteq> CHR ''-'') rest"
  have split: "py_split CHR ''-'' (ts @ CHR ''-'' # rest) = ts # py_split CHR ''-'' rest"
    by (rule py_split_at_first [OF assms])
  obtain m ms where rest: "py_split CHR ''-'' rest = m # ms"
    using py_split_not_Nil [of "CHR ''-''" rest] by (cases "py_split CHR ''-'' rest") auto
  then have m: "m = ?msg"
    using hd_py_split [of "CHR ''-''" rest] by simp
  have date: "py_index (py_split CHR ''@'' ts) 0 = Inr ?date"
    by (simp add: py_index_0_hd py_split_not_Nil hd_py_split)
  have line: "parse_log_line C s (ts @ CHR ''-'' # rest) =
      count_errors (log_message_error_to_summary_key_map C) ?msg ?date
        (if map_of s ?date = None then AList.update ?date new_day_summary s else s)"
    by (simp add: parse_log_line_def split rest m date py_index_Cons_0 py_index_1)
  show ?thesis
  proof (cases "map_of s ?date")
    case None
    have "map_of (AList.update ?date new_day_summary s) ?date = Some new_day_summary"
      by (simp add: AList.update_conv')
    from count_errors_fold [OF this] None show ?thesis
      by (simp add: line matched_keys_def)
  next
    case (Some v)
    from count_errors_fold [OF Some] Some show ?thesis
      by (simp add: line matched_keys_def)
  qed
qed

lemma parse_log_line_no_hyphen:
  "CHR ''-'' \<notin> set line \<Longrightarrow> parse_log_line C s line = Inl IndexError"
  by (simp add: parse_log_line_def py_split_no_sep py_index_Cons_0 py_index_0_hd
      py_split_not_Nil py_index_1_short)

lemma parse_log_line_hyphen:
  assumes "CHR ''-'' \<in> set line"
  shows "\<exists>s'. parse_log_line C s line = Inr s'"
proof -
  from split_list_first [OF assms] obtain ts rest where
    "line = ts @ CHR ''-'' # rest" and "CHR ''-'' \<notin> set ts"
    by blast
  with parse_log_line_result [of ts C s rest] show ?thesis by simp
qed

text \<open>One line without a hyphen, not skipped, ends the whole run.\<close>

lemma parse_log_lines_bad_line:
  assumes "l \<in> set lines" and "CHR ''-'' \<notin> set l"
    and "\<not> py_in (LOGGER_STARTING_LOG C) l"
    and "\<not> py_in (LOGGER_STATUS_CHECK_RUNNING_MESSAGE C) l"
  shows "parse_log_lines C s lines = Inl IndexError"
  using assms(1)
proof (induction lines arbitrary: s)
  case Nil
  then show ?case by simp
next
  case (Cons x xs)
  show ?case
  proof (cases "py_in (LOGGER_STARTING_LOG C) x
      \<or> py_in (LOGGER_STATUS_CHECK_RUNNING_MESSAGE C) x")
    case True
    with assms(3,4) have "x \<noteq> l" by auto
    with Cons.prems have "l \<in> set xs" by simp
    from Cons.IH [OF this] True show ?thesis by simp
  next
    case False
    show ?thesis
    proof (cases "CHR ''-'' \<in> set x")
      case True
      with assms(2) have "x \<noteq> l" by auto
      with Cons.prems have l: "l \<in> set xs" by simp
      from parse_log_line_hyphen [OF True] obtain s' where
        "parse_log_line C s x = Inr s'" by blast
      with Cons.IH [OF l] False show ?thesis by simp
    next
      case nohyphen: False
      from parse_log_line_no_hyphen [OF nohyphen] False show ?thesis by simp
    qed
  qed
qed


lemma matched_keys_packet_loss:
  assumes "py_in (PACKET_LOSS_ERROR C) m" and "\<not> py_in (ROUND_TRIP_TIME_ERROR C) m"
    and "\<not> py_in (MODEM_ERROR C) m" and "\<not> py_in (LOCAL_ROUTER_ERROR C) m"
  shows "matched_keys C m = [PARSER_PACKET_LOSS]"
proof -
  from assms have "PACKET_LOSS_ERROR C \<noteq> ROUND_TRIP_TIME_ERROR C"
    "PACKET_LOSS_ERROR C \<noteq> MODEM_ERROR C" "PACKET_LOSS_ERROR C \<noteq> LOCAL_ROUTER_ERROR C"
    by auto
  with assms show ?thesis
    by (simp add: matched_keys_def log_message_error_to_summary_key_map_def)
qed

lemma matched_keys_modem:
  assumes "py_in (MODEM_ERROR C) m" and "\<not> py_in (PACKET_LOSS_ERROR C) m"
    and "\<not> py_in (ROUND_TRIP_TIME_ERROR C) m" and "\<not> py_in (LOCAL_ROUTER_ERROR C) m"
  shows "matched_keys C m = [PARSER_MODEM_DOWN]"
proof -
  from assms have "MODEM_ERROR C \<noteq> PACKET_LOSS_ERROR C"
    "MODEM_ERROR C \<noteq> ROUND_TRIP_TIME_ERROR C" "MODEM_ERROR C \<noteq> LOCAL_ROUTER_ERROR C"
    by auto
  with assms show ?thesis
    by (simp add: matched_keys_def log_message_error_to_summary_key_map_def)
qed

lemma matched_keys_none:
  assumes "\<not> py_in (PACKET_LOSS_ERROR C) m" and "\<not> py_in (ROUND_TRIP_TIME_ERROR C) m"
    and "\<not> py_in (MODEM_ERROR C) m" and "\<not> py_in (LOCAL_ROUTER_ERROR C) m"
  shows "matched_keys C m = []"
proof -
  have "fst p \<in> {PACKET_LOSS_ERROR C, ROUND_TRIP_TIME_ERROR C, MODEM_ERROR C,
                  LOCAL_ROUTER_ERROR C}"
    if "p \<in> set (log_message_error_to_summary_key_map C)" for p
  proof -
    have "fst ` set (log_message_error_to_summary_key_map C) =
        {LOCAL_ROUTER_ERROR C, MODEM_ERROR C, ROUND_TRIP_TIME_ERROR C, PACKET_LOSS_ERROR C}"
      unfolding log_message_error_to_summary_key_map_def AList.dom_update
      by auto
    moreover from that have "fst p \<in> fst ` set (log_message_error_to_summary_key_map C)"
      by simp
    ultimately show ?thesis by auto
  qed
  with assms have "\<not> py_in (fst p) m"
    if "p \<in> set (log_message_error_to_summary_key_map C)" for p
    using that by fastforce
  then have "filter (\<lambda>p. py_in (fst p) m) (log_message_error_to_summary_key_map C) = []"
    by (simp add: filter_empty_conv)
  then show ?thesis by (simp add: matched_keys_def)
qed

section \<open>The inner loop looks for all four error messages\<close>




section \<open>Lines without the separators\<close>

text \<open>
  Claim C7 says that a line without \<open>-\<close> or \<open>@\<close> is flagged as an error of that
  line and that the lines after it are still summarised. One line without a hyphen
  raises IndexError and no summary is returned; a line without \<open>@\<close> is counted
  under its whole time stamp and is not flagged.
\<close>

theorem malformed_line_is_fatal:
  "parse_log example_constants
     (''internet status unknown'' @ CHR 0x0A # ''03/01/2021@10:00:00-Packet loss too high'')
     = Inl IndexError
   \<and> parse_log example_constants ''03/01/2021 10:00:00-Packet loss too high''
     = Inr [(''03/01/2021 10:00:00'',
             \<lparr>packet_loss = 1, round_trip_time = 0, modem_down = 0, router_down = 0\<rparr>)]"
  by code_simp

text \<open>
  Claim C7, amended. A line that is not skipped and has no hyphen makes the log parser
  raise IndexError, whatever the other lines are: it ends the whole run and no summary
  is returned. A line with a hyphen and no \<open>@\<close> before it is not flagged: the whole
  text before the first hyphen is its date, and the run goes on.
\<close>

theorem malformed_log_line:
  "(l \<in> set (splitlines log_file_string) \<and> CHR ''-'' \<notin> set l
      \<and> \<not> py_in (LOGGER_STARTING_LOG C) l
      \<and> \<not> py_in (LOGGER_STATUS_CHECK_RUNNING_MESSAGE C) l
    \<longrightarrow> parse_log C log_file_string = Inl IndexError)
   \<and> (CHR ''-'' \<notin> set ts \<and> CHR ''@'' \<notin> set ts
    \<longrightarrow> (\<exists>s'. parse_log_line C s (ts @ CHR ''-'' # rest) = Inr s' \<and> map_of s' ts \<noteq> None))"
proof (intro conjI impI)
  assume "l \<in> set (splitlines log_file_string) \<and> CHR ''-'' \<notin> set l
      \<and> \<not> py_in (LOGGER_STARTING_LOG C) l
      \<and> \<not> py_in (LOGGER_STATUS_CHECK_RUNNING_MESSAGE C) l"
  then show "parse_log C log_file_string = Inl IndexError"
    unfolding parse_log_def by (blast intro: parse_log_lines_bad_line)
next
  assume a: "CHR ''-'' \<notin> set ts \<and> CHR ''@'' \<notin> set ts"
  then have "takeWhile (\<lambda>c. c \<noteq> CHR ''@'') ts = ts"
    by (auto simp: takeWhile_eq_all_conv)
  with a parse_log_line_result [of ts C s rest]
  show "\<exists>s'. parse_log_line C s (ts @ CHR ''-'' # rest) = Inr s' \<and> map_of s' ts \<noteq> None"
    by (simp add: AList.update_conv')
qed

theorem malformed_log_line_witness:
  "''internet status unknown'' \<in> set (splitlines
      (''internet status unknown'' @ CHR 0x0A # ''03/01/2021@10:00:00-Packet loss too high''))
   \<and> CHR ''-'' \<notin> set ''internet status unknown''
   \<and> \<not> py_in (LOGGER_STARTING_LOG example_constants) ''internet status unknown''
   \<and> \<not> py_in (LOGGER_STATUS_CHECK_RUNNING_MESSAGE example_constants)
         ''internet status unknown''
   \<and> parse_log example_constants
       (''internet status unknown'' @ CHR 0x0A # ''03/01/2021@10:00:00-Packet loss too high'')
      = Inl IndexError
   \<and> CHR ''@'' \<notin> set ''03/01/2021 10:00:00''
   \<and> (\<exists>s'. parse_log_line example_constants []
          (''03/01/2021 10:00:00'' @ CHR ''-'' # ''Packet loss too high'') = Inr s'
          \<and> map_of s' ''03/01/2021 10:00:00'' \<noteq> None)"
proof -
  have a: "''internet status unknown'' \<in> set (splitlines
      (''internet status unknown'' @ CHR 0x0A # ''03/01/2021@10:00:00-Packet loss too high''))"
    by code_simp
  have b: "CHR ''-'' \<notin> set ''internet status unknown''" by simp
  have c: "\<not> py_in (LOGGER_STARTING_LOG example_constants) ''internet status unknown''"
    "\<not> py_in (LOGGER_STATUS_CHECK_RUNNING_MESSAGE example_constants)
         ''internet status unknown''"
    by code_simp+
  have d: "CHR ''-'' \<notin> set ''03/01/2021 10:00:00''" "CHR ''@'' \<notin> set ''03/01/2021 10:00:00''"
    by simp_all
  from malformed_log_line [where l = "''internet status unknown''"
      and log_file_string =
        "''internet status unknown'' @ CHR 0x0A # ''03/01/2021@10:00:00-Packet loss too high''"
      and C = example_constants and ts = "''03/01/2021 10:00:00''" and s = "[]"
      and rest = "''Packet loss too high''"]
    a b c d
  show ?thesis by blast
qed

section \<open>The message segment of a line\<close>

text \<open>
  Claim C8 says that a line is split at its first hyphen only, so that the message is
  all the rest of the line and an error message after a further hyphen is counted. The
  line is split at every hyphen and the message is the second piece: an error message
  after a further hyphen is not counted.
\<close>

theorem marker_after_second_hyphen_not_counted:
  "parse_log example_constants
     ''03/01/2021@10:00:00-www.google.com - Packet loss too high''
   = Inr [(''03/01/2021'',
           \<lparr>packet_loss = 0, round_trip_time = 0, modem_down = 0, router_down = 0\<rparr>)]"
  by code_simp

text \<open>
  Claim C8, amended. A line that is not skipped is split at every hyphen. The date is
  the part before \<open>@\<close> of the piece before the first hyphen. The message is the piece
  between the first hyphen and the next one, which is all the rest of the line only
  when the rest has no hyphen; the error messages are looked for in that piece alone,
  so that the text after a further hyphen changes no counter.
\<close>

theorem message_is_second_piece:
  assumes "CHR ''-'' \<notin> set ts"
    and "log_date = takeWhile (\<lambda>c. c \<noteq> CHR ''@'') ts"
    and "before = (case map_of s log_date of None \<Rightarrow> new_day_summary | Some v \<Rightarrow> v)"
  shows "py_index (py_split CHR ''@'' (hd (py_split CHR ''-'' (ts @ CHR ''-'' # rest)))) 0
           = Inr log_date
     \<and> py_index (py_split CHR ''-'' (ts @ CHR ''-'' # rest)) 1
           = Inr (takeWhile (\<lambda>c. c \<noteq> CHR ''-'') rest)
     \<and> parse_log_line C s (ts @ CHR ''-'' # rest) =
         Inr (AList.update log_date
                (fold increment (matched_keys C (takeWhile (\<lambda>c. c \<noteq> CHR ''-'') rest)) before)
                s)
     \<and> (CHR ''-'' \<notin> set rest \<longrightarrow>
          parse_log_line C s (ts @ CHR ''-'' # rest) =
            Inr (AList.update log_date (fold increment (matched_keys C rest) before) s))
     \<and> (CHR ''-'' \<notin> set m \<longrightarrow>
          parse_log_line C s (ts @ CHR ''-'' # m @ CHR ''-'' # tail) =
            Inr (AList.update log_date (fold increment (matched_keys C m) before) s))"
proof -
  have split: "py_split CHR ''-'' (ts @ CHR ''-'' # rest) = ts # py_split CHR ''-'' rest"
    for rest
    by (rule py_split_at_first [OF assms(1)])
  have date: "py_index (py_split CHR ''@'' (hd (py_split CHR ''-'' (ts @ CHR ''-'' # rest)))) 0
           = Inr log_date"
    by (simp add: split py_index_0_hd py_split_not_Nil hd_py_split assms(2))
  obtain x xs where rest: "py_split CHR ''-'' rest = x # xs"
    using py_split_not_Nil [of "CHR ''-''" rest] by (cases "py_split CHR ''-'' rest") auto
  then have "x = takeWhile (\<lambda>c. c \<noteq> CHR ''-'') rest"
    using hd_py_split [of "CHR ''-''" rest] by simp
  with rest have msg: "py_index (py_split CHR ''-'' (ts @ CHR ''-'' # rest)) 1
           = Inr (takeWhile (\<lambda>c. c \<noteq> CHR ''-'') rest)"
    by (simp add: split py_index_1)
  have line: "parse_log_line C s (ts @ CHR ''-'' # rest) =
         Inr (AList.update log_date
                (fold increment (matched_keys C (takeWhile (\<lambda>c. c \<noteq> CHR ''-'') rest)) before)
                s)" for rest
    unfolding assms(2,3) by (rule parse_log_line_result [OF assms(1)])
  have whole: "parse_log_line C s (ts @ CHR ''-'' # rest) =
            Inr (AList.update log_date (fold increment (matched_keys C rest) before) s)"
    if "CHR ''-'' \<notin> set rest"
  proof -
    from that have "takeWhile (\<lambda>c. c \<noteq> CHR ''-'') rest = rest"
      by (auto simp: takeWhile_eq_all_conv)
    with line [of rest] show ?thesis by simp
  qed
  have cut: "parse_log_line C s (ts @ CHR ''-'' # m @ CHR ''-'' # tail) =
            Inr (AList.update log_date (fold increment (matched_keys C m) before) s)"
    if "CHR ''-'' \<notin> set m"
  proof -
    from that have "takeWhile (\<lambda>c. c \<noteq> CHR ''-'') (m @ CHR ''-'' # tail) = m"
      by (auto simp: takeWhile_tail takeWhile_eq_all_conv)
    with line [of "m @ CHR ''-'' # tail"] show ?thesis by simp
  qed
  from date msg line [of rest] whole cut show ?thesis by blast
qed

theorem message_is_second_piece_witness:
  "CHR ''-'' \<notin> set ''03/01/2021@10:00:00''
   \<and> CHR ''-'' \<notin> set ''www.google.com ''
   \<and> parse_log_line example_constants []
        (''03/01/2021@10:00:00'' @ CHR ''-'' # ''www.google.com '' @ CHR ''-'' #
         '' Packet loss too high'')
      = Inr [(''03/01/2021'',
              \<lparr>packet_loss = 0, round_trip_time = 0, modem_down = 0, router_down = 0\<rparr>)]"
proof -
  have a: "CHR ''-'' \<notin> set ''03/01/2021@10:00:00''" by simp
  have b: "CHR ''-'' \<notin> set ''www.google.com ''" by simp
  have k: "matched_keys example_constants ''www.google.com '' = []"
    by code_simp
  have date: "takeWhile (\<lambda>c. c \<noteq> CHR ''@'') ''03/01/2021@10:00:00'' = ''03/01/2021''"
    by simp
  from message_is_second_piece [OF a refl refl, where s = "[]" and C = example_constants
      and m = "''www.google.com ''" and tail = "'' Packet loss too high''"] b
  have "parse_log_line example_constants []
        (''03/01/2021@10:00:00'' @ CHR ''-'' # ''www.google.com '' @ CHR ''-'' #
         '' Packet loss too high'')
      = Inr [(''03/01/2021'',
              \<lparr>packet_loss = 0, round_trip_time = 0, modem_down = 0, router_down = 0\<rparr>)]"
    by (simp add: k new_day_summary_def)
  with a b show ?thesis by simp
qed

section \<open>The counts of two days\<close>

text \<open>A line made of a date, a time and a message, none of them with a hyphen.\<close>

lemma dated_line:
  assumes "CHR ''-'' \<notin> set D" and "CHR ''@'' \<notin> set D"
    and "CHR ''-'' \<notin> set t" and "CHR ''-'' \<notin> set m"
  shows "parse_log_line C s (D @ CHR ''@'' # t @ CHR ''-'' # m) =
     Inr (AList.update D
            (fold increment (matched_keys C m)
               (case map_of s D of None \<Rightarrow> new_day_summary | Some v \<Rightarrow> v))
            s)"
proof -
  from assms(1,3) have ts: "CHR ''-'' \<notin> set (D @ CHR ''@'' # t)" by simp
  from assms(2) have date: "takeWhile (\<lambda>c. c \<noteq> CHR ''@'') (D @ CHR ''@'' # t) = D"
    by (auto simp: takeWhile_tail takeWhile_eq_all_conv)
  from assms(4) have msg: "takeWhile (\<lambda>c. c \<noteq> CHR ''-'') m = m"
    by (auto simp: takeWhile_eq_all_conv)
  from parse_log_line_result [OF ts, of C s m] show ?thesis
    by (simp add: date msg)
qed

text \<open>
  Claim C9 says that three lines of the day D1 with the packet loss message and one line
  of the day D2 with the modem message give D1 three packet losses and give D2 one
  router count and no modem count. The modem message is counted under the modem key.
\<close>

theorem modem_line_counts_as_modem:
  "parse_log example_constants
     (''03/01/2021@10:00:00-Packet loss too high'' @ CHR 0x0A #
      ''03/01/2021@10:05:00-Packet loss too high'' @ CHR 0x0A #
      ''03/01/2021@10:10:00-Packet loss too high'' @ CHR 0x0A #
      ''03/02/2021@09:00:00-Unable to connect to modem'' @ [CHR 0x0A])
   = Inr [(''03/01/2021'',
           \<lparr>packet_loss = 3, round_trip_time = 0, modem_down = 0, router_down = 0\<rparr>),
          (''03/02/2021'',
           \<lparr>packet_loss = 0, round_trip_time = 0, modem_down = 1, router_down = 0\<rparr>)]
   \<and> parse_log example_constants
     (''03/01/2021@10:00:00-Packet loss too high'' @ CHR 0x0A #
      ''03/01/2021@10:05:00-Packet loss too high'' @ CHR 0x0A #
      ''03/01/2021@10:10:00-Packet loss too high'' @ CHR 0x0A #
      ''03/02/2021@09:00:00-Unable to connect to modem'' @ [CHR 0x0A])
   \<noteq> Inr [(''03/01/2021'',
           \<lparr>packet_loss = 3, round_trip_time = 0, modem_down = 0, router_down = 0\<rparr>),
          (''03/02/2021'',
           \<lparr>packet_loss = 0, round_trip_time = 0, modem_down = 0, router_down = 1\<rparr>)]"
  by code_simp

text \<open>
  Claim C9, amended. Let the log have exactly four lines, none of them skipped: three of
  the date D1, each with a message that contains the packet loss message and none of the
  other three, then one of another date D2 with a message that contains the modem
  message and none of the other three; let the dates, times and messages have no hyphen
  and the dates no \<open>@\<close>. Then the summary has D1 first, with three packet losses and
  nothing else, and D2 second, with one modem count and nothing else.
\<close>

theorem day_counts:
  assumes "splitlines log_file_string =
       [D1 @ CHR ''@'' # t1 @ CHR ''-'' # m1, D1 @ CHR ''@'' # t2 @ CHR ''-'' # m2,
        D1 @ CHR ''@'' # t3 @ CHR ''-'' # m3, D2 @ CHR ''@'' # t4 @ CHR ''-'' # m4]"
    and "D1 \<noteq> D2"
    and "CHR ''-'' \<notin> set (D1 @ D2 @ t1 @ t2 @ t3 @ t4 @ m1 @ m2 @ m3 @ m4)"
    and "CHR ''@'' \<notin> set (D1 @ D2)"
    and "\<forall>l\<in>set (splitlines log_file_string).
           \<not> py_in (LOGGER_STARTING_LOG C) l
           \<and> \<not> py_in (LOGGER_STATUS_CHECK_RUNNING_MESSAGE C) l"
    and "\<forall>m\<in>set [m1, m2, m3].
           py_in (PACKET_LOSS_ERROR C) m \<and> \<not> py_in (ROUND_TRIP_TIME_ERROR C) m
           \<and> \<not> py_in (MODEM_ERROR C) m \<and> \<not> py_in (LOCAL_ROUTER_ERROR C) m"
    and "py_in (MODEM_ERROR C) m4 \<and> \<not> py_in (PACKET_LOSS_ERROR C) m4
           \<and> \<not> py_in (ROUND_TRIP_TIME_ERROR C) m4 \<and> \<not> py_in (LOCAL_ROUTER_ERROR C) m4"
  shows "parse_log C log_file_string =
     Inr [(D1, \<lparr>packet_loss = 3, round_trip_time = 0, modem_down = 0, router_down = 0\<rparr>),
          (D2, \<lparr>packet_loss = 0, round_trip_time = 0, modem_down = 1, router_down = 0\<rparr>)]"
proof -
  let ?l1 = "D1 @ CHR ''@'' # t1 @ CHR ''-'' # m1"
  let ?l2 = "D1 @ CHR ''@'' # t2 @ CHR ''-'' # m2"
  let ?l3 = "D1 @ CHR ''@'' # t3 @ CHR ''-'' # m3"
  let ?l4 = "D2 @ CHR ''@'' # t4 @ CHR ''-'' # m4"
  from assms(6) have k1: "matched_keys C m1 = [PARSER_PACKET_LOSS]"
    and k2: "matched_keys C m2 = [PARSER_PACKET_LOSS]"
    and k3: "matched_keys C m3 = [PARSER_PACKET_LOSS]"
    by (simp_all add: matched_keys_packet_loss)
  from assms(7) have k4: "matched_keys C m4 = [PARSER_MODEM_DOWN]"
    by (simp add: matched_keys_modem)
  from assms(3,4) have
    s1: "parse_log_line C [] ?l1 =
           Inr [(D1, \<lparr>packet_loss = 1, round_trip_time = 0, modem_down = 0, router_down = 0\<rparr>)]"
    by (simp add: dated_line k1 new_day_summary_def)
  from assms(3,4) have
    s2: "parse_log_line C
           [(D1, \<lparr>packet_loss = 1, round_trip_time = 0, modem_down = 0, router_down = 0\<rparr>)] ?l2 =
           Inr [(D1, \<lparr>packet_loss = 2, round_trip_time = 0, modem_down = 0, router_down = 0\<rparr>)]"
    by (simp add: dated_line k2)
  from assms(3,4) have
    s3: "parse_log_line C
           [(D1, \<lparr>packet_loss = 2, round_trip_time = 0, modem_down = 0, router_down = 0\<rparr>)] ?l3 =
           Inr [(D1, \<lparr>packet_loss = 3, round_trip_time = 0, modem_down = 0, router_down = 0\<rparr>)]"
    by (simp add: dated_line k3)
  from assms(2,3,4) have
    s4: "parse_log_line C
           [(D1, \<lparr>packet_loss = 3, round_trip_time = 0, modem_down = 0, router_down = 0\<rparr>)] ?l4 =
           Inr [(D1, \<lparr>packet_loss = 3, round_trip_time = 0, modem_down = 0, router_down = 0\<rparr>),
                (D2, \<lparr>packet_loss = 0, round_trip_time = 0, modem_down = 1, router_down = 0\<rparr>)]"
    by (simp add: dated_line k4 new_day_summary_def)
  from assms(5) have nb:
    "\<not> (py_in (LOGGER_STARTING_LOG C) ?l1 \<or> py_in (LOGGER_STATUS_CHECK_RUNNING_MESSAGE C) ?l1)"
    "\<not> (py_in (LOGGER_STARTING_LOG C) ?l2 \<or> py_in (LOGGER_STATUS_CHECK_RUNNING_MESSAGE C) ?l2)"
    "\<not> (py_in (LOGGER_STARTING_LOG C) ?l3 \<or> py_in (LOGGER_STATUS_CHECK_RUNNING_MESSAGE C) ?l3)"
    "\<not> (py_in (LOGGER_STARTING_LOG C) ?l4 \<or> py_in (LOGGER_STATUS_CHECK_RUNNING_MESSAGE C) ?l4)"
    unfolding assms(1) by simp_all
  have "parse_log_lines C [] [?l1, ?l2, ?l3, ?l4] =
     Inr [(D1, \<lparr>packet_loss = 3, round_trip_time = 0, modem_down = 0, router_down = 0\<rparr>),
          (D2, \<lparr>packet_loss = 0, round_trip_time = 0, modem_down = 1, router_down = 0\<rparr>)]"
    by (simp only: parse_log_lines.simps nb if_False s1 s2 s3 s4 sum.case)
  then show ?thesis
    by (simp only: parse_log_def assms(1))
qed

theorem day_counts_witness:
  "''03/01/2021'' \<noteq> ''03/02/2021''
   \<and> py_in (PACKET_LOSS_ERROR example_constants) ''Packet loss too high''
   \<and> py_in (MODEM_ERROR example_constants) ''Unable to connect to modem''
   \<and> parse_log example_constants
        (''03/01/2021@10:00:00-Packet loss too high'' @ CHR 0x0A #
         ''03/01/2021@10:05:00-Packet loss too high'' @ CHR 0x0A #
         ''03/01/2021@10:10:00-Packet loss too high'' @ CHR 0x0A #
         ''03/02/2021@09:00:00-Unable to connect to modem'' @ [CHR 0x0A])
      = Inr [(''03/01/2021'',
              \<lparr>packet_loss = 3, round_trip_time = 0, modem_down = 0, router_down = 0\<rparr>),
             (''03/02/2021'',
              \<lparr>packet_loss = 0, round_trip_time = 0, modem_down = 1, router_down = 0\<rparr>)]"
proof -
  let ?log = "''03/01/2021@10:00:00-Packet loss too high'' @ CHR 0x0A #
         ''03/01/2021@10:05:00-Packet loss too high'' @ CHR 0x0A #
         ''03/01/2021@10:10:00-Packet loss too high'' @ CHR 0x0A #
         ''03/02/2021@09:00:00-Unable to connect to modem'' @ [CHR 0x0A]"
  have lines: "splitlines ?log =
       [''03/01/2021'' @ CHR ''@'' # ''10:00:00'' @ CHR ''-'' # ''Packet loss too high'',
        ''03/01/2021'' @ CHR ''@'' # ''10:05:00'' @ CHR ''-'' # ''Packet loss too high'',
        ''03/01/2021'' @ CHR ''@'' # ''10:10:00'' @ CHR ''-'' # ''Packet loss too high'',
        ''03/02/2021'' @ CHR ''@'' # ''09:00:00'' @ CHR ''-'' # ''Unable to connect to modem'']"
    by code_simp
  have days: "''03/01/2021'' \<noteq> ''03/02/2021''" by simp
  have hyphen: "CHR ''-'' \<notin> set (''03/01/2021'' @ ''03/02/2021'' @ ''10:00:00'' @ ''10:05:00''
      @ ''10:10:00'' @ ''09:00:00'' @ ''Packet loss too high'' @ ''Packet loss too high''
      @ ''Packet loss too high'' @ ''Unable to connect to modem'')"
    by simp
  have at: "CHR ''@'' \<notin> set (''03/01/2021'' @ ''03/02/2021'')" by simp
  have nobanner: "\<forall>l\<in>set (splitlines ?log).
           \<not> py_in (LOGGER_STARTING_LOG example_constants) l
           \<and> \<not> py_in (LOGGER_STATUS_CHECK_RUNNING_MESSAGE example_constants) l"
    by code_simp
  have pl: "\<forall>m\<in>set [''Packet loss too high'', ''Packet loss too high'',
                     ''Packet loss too high''].
           py_in (PACKET_LOSS_ERROR example_constants) m
           \<and> \<not> py_in (ROUND_TRIP_TIME_ERROR example_constants) m
           \<and> \<not> py_in (MODEM_ERROR example_constants) m
           \<and> \<not> py_in (LOCAL_ROUTER_ERROR example_constants) m"
    by code_simp
  have md: "py_in (MODEM_ERROR example_constants) ''Unable to connect to modem''
           \<and> \<not> py_in (PACKET_LOSS_ERROR example_constants) ''Unable to connect to modem''
           \<and> \<not> py_in (ROUND_TRIP_TIME_ERROR example_constants) ''Unable to connect to modem''
           \<and> \<not> py_in (LOCAL_ROUTER_ERROR example_constants) ''Unable to connect to modem''"
    by code_simp
  from pl have pl1: "py_in (PACKET_LOSS_ERROR example_constants) ''Packet loss too high''"
    by simp
  from day_counts [OF lines days hyphen at nobanner pl md] days pl1 md
  show ?thesis by simp
qed

end
